theory Spec2Isabelle
  imports Complex_Main "HOL-Library.Multiset"
begin

section \<open>Values, text and time\<close>

text \<open>
  The program (\<^verbatim>\<open>app.py\<close>) is a Flask application over two SQLite tables. A column
  value is one of SQLite's storage classes. Python binds \<^verbatim>\<open>str\<close> parameters as TEXT
  and \<^verbatim>\<open>None\<close> as NULL, and reads INTEGER, REAL, TEXT and NULL back as \<^verbatim>\<open>int\<close>,
  \<^verbatim>\<open>float\<close>, \<^verbatim>\<open>str\<close> and \<^verbatim>\<open>None\<close>. No path of the program binds bytes, so the
  BLOB class is left out. Text is a list of bytes, the UTF-8 form in which SQLite
  stores and compares it.
\<close>

datatype sql_value = SNull | SInt int | SReal real | SText string

text \<open>
  SQLite compares two TEXT values with the BINARY collation: \<^verbatim>\<open>memcmp\<close> on the bytes,
  a proper prefix being smaller.
\<close>

fun text_lt :: "string \<Rightarrow> string \<Rightarrow> bool" where
  "text_lt [] [] = False"
| "text_lt [] (y # ys) = True"
| "text_lt (x # xs) [] = False"
| "text_lt (x # xs) (y # ys) =
     ((of_char x :: nat) < of_char y \<or> (x = y \<and> text_lt xs ys))"

text \<open>
  The comparison \<^verbatim>\<open>a < b\<close> of SQL, for a left operand from a column of NUMERIC
  affinity and a right operand that is TEXT and not a numeric literal: NULL makes the
  result NULL (not true), a number is below every text, two texts are compared bytewise.
\<close>

fun sql_lt_text :: "sql_value \<Rightarrow> string \<Rightarrow> bool" where
  "sql_lt_text SNull t = False"
| "sql_lt_text (SInt i) t = True"
| "sql_lt_text (SReal r) t = True"
| "sql_lt_text (SText s) t = text_lt s t"

text \<open>
  A point in time as Python's naive \<^verbatim>\<open>datetime\<close> holds it. The comparison of two
  naive datetimes is the lexicographic one on the seven fields.
\<close>

record datetime =
  year :: nat
  month :: nat
  day :: nat
  hour :: nat
  minute :: nat
  second :: nat
  microsecond :: nat

definition dt_key :: "datetime \<Rightarrow> nat list" where
  "dt_key t = [year t, month t, day t, hour t, minute t, second t, microsecond t]"

fun lex_less :: "nat list \<Rightarrow> nat list \<Rightarrow> bool" where
  "lex_less [] ys = (ys \<noteq> [])"
| "lex_less (x # xs) [] = False"
| "lex_less (x # xs) (y # ys) = (x < y \<or> (x = y \<and> lex_less xs ys))"

definition dt_less :: "datetime \<Rightarrow> datetime \<Rightarrow> bool" where
  "dt_less a b = lex_less (dt_key a) (dt_key b)"

definition is_leap :: "nat \<Rightarrow> bool" where
  "is_leap y = (y mod 4 = 0 \<and> (y mod 100 \<noteq> 0 \<or> y mod 400 = 0))"

definition days_in_month :: "nat \<Rightarrow> nat \<Rightarrow> nat" where
  "days_in_month y m =
     (if m = 2 then (if is_leap y then 29 else 28)
      else if m = 4 \<or> m = 6 \<or> m = 9 \<or> m = 11 then 30 else 31)"

text \<open>The dates that \<^verbatim>\<open>datetime.date(y, m, d)\<close> accepts.\<close>

definition valid_date :: "nat \<Rightarrow> nat \<Rightarrow> nat \<Rightarrow> bool" where
  "valid_date y m d =
     (1 \<le> y \<and> y \<le> 9999 \<and> 1 \<le> m \<and> m \<le> 12 \<and> 1 \<le> d \<and> d \<le> days_in_month y m)"

definition valid_datetime :: "datetime \<Rightarrow> bool" where
  "valid_datetime t =
     (valid_date (year t) (month t) (day t) \<and> hour t < 24 \<and> minute t < 60
      \<and> second t < 60 \<and> microsecond t < 1000000)"

subsection \<open>Decimal fields\<close>

definition digit_char :: "nat \<Rightarrow> char" where
  "digit_char n = ''0123456789'' ! (n mod 10)"

definition is_digit :: "char \<Rightarrow> bool" where
  "is_digit c = (48 \<le> (of_char c :: nat) \<and> (of_char c :: nat) \<le> 57)"

definition digit_val :: "char \<Rightarrow> nat" where
  "digit_val c = of_char c - 48"

definition pad2 :: "nat \<Rightarrow> string" where
  "pad2 n = [digit_char (n div 10), digit_char n]"

definition pad4 :: "nat \<Rightarrow> string" where
  "pad4 n = [digit_char (n div 1000), digit_char (n div 100), digit_char (n div 10),
             digit_char n]"

text \<open>
  The text of SQLite's \<^verbatim>\<open>datetime('now')\<close> and of \<^verbatim>\<open>CURRENT_TIMESTAMP\<close> at the UTC
  time \<open>t\<close>: \<^verbatim>\<open>YYYY-MM-DD HH:MM:SS\<close>, with a space between date and time.
\<close>

definition sqlite_datetime :: "datetime \<Rightarrow> string" where
  "sqlite_datetime t =
     pad4 (year t) @ ''-'' @ pad2 (month t) @ ''-'' @ pad2 (day t) @ '' '' @
     pad2 (hour t) @ '':'' @ pad2 (minute t) @ '':'' @ pad2 (second t)"

text \<open>
  The text the creation form submits for a chosen expiry, the shape that the program's
  format string \<^verbatim>\<open>'%Y-%m-%dT%H:%M'\<close> names: \<^verbatim>\<open>YYYY-MM-DDTHH:MM\<close>.
\<close>

definition iso_minute :: "datetime \<Rightarrow> string" where
  "iso_minute t =
     pad4 (year t) @ ''-'' @ pad2 (month t) @ ''-'' @ pad2 (day t) @ ''T'' @
     pad2 (hour t) @ '':'' @ pad2 (minute t)"

text \<open>The first ten characters of both texts: the calendar date.\<close>

definition date_text :: "datetime \<Rightarrow> string" where
  "date_text t = pad4 (year t) @ ''-'' @ pad2 (month t) @ ''-'' @ pad2 (day t)"

subsection \<open>\<^verbatim>\<open>datetime.strptime(value, '%Y-%m-%dT%H:%M')\<close>\<close>

datatype error = ValueError | TypeError | IntegrityError | BadRequestKeyError

text \<open>
  Python compiles the format into the regular expression
  \<^verbatim>\<open>(\d\d\d\d)-(1[0-2]|0[1-9]|[1-9])-(3[0-1]|[1-2]\d|0[1-9]|[1-9]| [1-9])T(2[0-3]|[0-1]\d|\d):([0-5]\d|\d)\<close>,
  matched ignoring case, and requires it to cover the whole string. No field's
  alternative contains the separator that follows the field, so each field is the text
  up to that separator. The digits are the ASCII digits: a text with other decimal
  digits of Unicode, which Python's \<^verbatim>\<open>\d\<close> also accepts, is outside this model
  and is answered here as a text that does not match.
\<close>

fun year_field :: "string \<Rightarrow> nat option" where
  "year_field [a, b, c, d] =
     (if is_digit a \<and> is_digit b \<and> is_digit c \<and> is_digit d
      then Some (1000 * digit_val a + 100 * digit_val b + 10 * digit_val c + digit_val d)
      else None)"
| "year_field s = None"

fun month_field :: "string \<Rightarrow> nat option" where
  "month_field [a, b] =
     (if a = CHR ''1'' \<and> is_digit b \<and> digit_val b \<le> 2 then Some (10 + digit_val b)
      else if a = CHR ''0'' \<and> is_digit b \<and> 1 \<le> digit_val b then Some (digit_val b)
      else None)"
| "month_field [a] = (if is_digit a \<and> 1 \<le> digit_val a then Some (digit_val a) else None)"
| "month_field s = None"

fun day_field :: "string \<Rightarrow> nat option" where
  "day_field [a, b] =
     (if a = CHR ''3'' \<and> is_digit b \<and> digit_val b \<le> 1 then Some (30 + digit_val b)
      else if (a = CHR ''1'' \<or> a = CHR ''2'') \<and> is_digit b
        then Some (10 * digit_val a + digit_val b)
      else if (a = CHR ''0'' \<or> a = CHR '' '') \<and> is_digit b \<and> 1 \<le> digit_val b
        then Some (digit_val b)
      else None)"
| "day_field [a] = (if is_digit a \<and> 1 \<le> digit_val a then Some (digit_val a) else None)"
| "day_field s = None"

fun hour_field :: "string \<Rightarrow> nat option" where
  "hour_field [a, b] =
     (if a = CHR ''2'' \<and> is_digit b \<and> digit_val b \<le> 3 then Some (20 + digit_val b)
      else if (a = CHR ''0'' \<or> a = CHR ''1'') \<and> is_digit b
        then Some (10 * digit_val a + digit_val b)
      else None)"
| "hour_field [a] = (if is_digit a then Some (digit_val a) else None)"
| "hour_field s = None"

fun minute_field :: "string \<Rightarrow> nat option" where
  "minute_field [a, b] =
     (if is_digit a \<and> digit_val a \<le> 5 \<and> is_digit b
      then Some (10 * digit_val a + digit_val b) else None)"
| "minute_field [a] = (if is_digit a then Some (digit_val a) else None)"
| "minute_field s = None"

text \<open>\<open>split_at p s\<close> cuts \<open>s\<close> at the first character satisfying \<open>p\<close>.\<close>

definition split_at :: "(char \<Rightarrow> bool) \<Rightarrow> string \<Rightarrow> (string \<times> string) option" where
  "split_at p s =
     (case dropWhile (\<lambda>c. \<not> p c) s of
        [] \<Rightarrow> None
      | c # rest \<Rightarrow> Some (takeWhile (\<lambda>c. \<not> p c) s, rest))"

definition strptime :: "string \<Rightarrow> error + datetime" where
  "strptime s =
     (case split_at (\<lambda>c. c = CHR ''-'') s of
        None \<Rightarrow> Inl ValueError
      | Some (ys, s1) \<Rightarrow>
     (case split_at (\<lambda>c. c = CHR ''-'') s1 of
        None \<Rightarrow> Inl ValueError
      | Some (ms, s2) \<Rightarrow>
     (case split_at (\<lambda>c. c = CHR ''T'' \<or> c = CHR ''t'') s2 of
        None \<Rightarrow> Inl ValueError
      | Some (ds, s3) \<Rightarrow>
     (case split_at (\<lambda>c. c = CHR '':'') s3 of
        None \<Rightarrow> Inl ValueError
      | Some (hs, mins) \<Rightarrow>
     (case (year_field ys, month_field ms, day_field ds, hour_field hs, minute_field mins) of
        (Some y, Some m, Some d, Some h, Some mi) \<Rightarrow>
          if valid_date y m d
          then Inr \<lparr>year = y, month = m, day = d, hour = h, minute = mi,
                    second = 0, microsecond = 0\<rparr>
          else Inl ValueError
      | _ \<Rightarrow> Inl ValueError)))))"

section \<open>The store\<close>

text \<open>
  The two tables that \<^verbatim>\<open>init_db\<close> creates. A table is the list of its rows in rowid
  order. \<^verbatim>\<open>original_url\<close> and \<^verbatim>\<open>short_code\<close> are \<^verbatim>\<open>TEXT NOT NULL\<close>;
  \<^verbatim>\<open>expiry_date\<close> has no constraint and holds any storage class; \<^verbatim>\<open>created_at\<close> and
  \<^verbatim>\<open>clicked_at\<close> are never supplied by an insert, so they hold the text of
  \<^verbatim>\<open>CURRENT_TIMESTAMP\<close>. \<^verbatim>\<open>id\<close> is \<^verbatim>\<open>INTEGER PRIMARY KEY AUTOINCREMENT\<close>: the
  largest id ever handed out is kept per table (SQLite's \<^verbatim>\<open>sqlite_sequence\<close>).
\<close>

record link =
  link_id :: int
  original_url :: string
  short_code :: string
  expiry_date :: sql_value
  created_at :: string

record click =
  click_id :: int
  click_short_code :: string
  clicked_at :: string
  ip_address :: "string option"
  user_agent :: string

record db =
  links :: "link list"
  clicks :: "click list"
  links_seq :: int
  clicks_seq :: int

definition empty_db :: db where
  "empty_db = \<lparr>links = [], clicks = [], links_seq = 0, clicks_seq = 0\<rparr>"

text \<open>
  The next AUTOINCREMENT id: one more than the larger of the recorded sequence value and
  the largest id in the table.
\<close>

definition next_id :: "int \<Rightarrow> int list \<Rightarrow> int" where
  "next_id seq ids = foldr max ids seq + 1"

text \<open>
  The two clocks the program reads: SQLite's (\<^verbatim>\<open>datetime('now')\<close>,
  \<^verbatim>\<open>CURRENT_TIMESTAMP\<close>: UTC) and Python's \<^verbatim>\<open>datetime.now()\<close> (local time).
\<close>

record clock =
  utc_now :: datetime
  local_now :: datetime

text \<open>
  What a handler reads from Flask's \<^verbatim>\<open>request\<close>: \<^verbatim>\<open>request.method\<close>,
  \<^verbatim>\<open>request.form\<close>, \<^verbatim>\<open>request.remote_addr\<close>, \<^verbatim>\<open>request.user_agent.string\<close> and
  \<^verbatim>\<open>request.host_url\<close>.
\<close>

record request =
  request_method :: string
  form :: "(string \<times> string) list"
  remote_addr :: "string option"
  user_agent_string :: string
  host_url :: string

text \<open>
  A handler's answer: a rendered template with its keyword arguments and status, or
  Flask's \<^verbatim>\<open>redirect(url)\<close>.
\<close>

datatype response =
  Template string "(string \<times> string) list" nat
| Redirect string

section \<open>The sweep\<close>

text \<open>
  \<^verbatim>\<open>DELETE FROM links WHERE expiry_date < datetime("now")\<close>: a row goes when the
  comparison is true. No column is called \<^verbatim>\<open>now\<close>, so SQLite reads the double-quoted
  \<^verbatim>\<open>"now"\<close> as the string.
\<close>

definition delete_expired_links :: "db \<Rightarrow> datetime \<Rightarrow> db" where
  "delete_expired_links d utc =
     d\<lparr>links := filter (\<lambda>l. \<not> sql_lt_text (expiry_date l) (sqlite_datetime utc)) (links d)\<rparr>"

section \<open>The code generator\<close>

definition ascii_lowercase :: string where
  "ascii_lowercase = ''abcdefghijklmnopqrstuvwxyz''"

definition ascii_uppercase :: string where
  "ascii_uppercase = ''ABCDEFGHIJKLMNOPQRSTUVWXYZ''"

definition ascii_letters :: string where
  "ascii_letters = ascii_lowercase @ ascii_uppercase"

definition digits :: string where
  "digits = ''0123456789''"

definition characters :: string where
  "characters = ascii_letters @ digits"

text \<open>
  \<^verbatim>\<open>random.choice(seq)\<close> is \<^verbatim>\<open>seq[randbelow(len(seq))]\<close>. The generator's raw output
  for one call is the number \<open>r\<close>; the index it yields is below the length. (On an empty
  sequence Python raises; \<open>characters\<close> is not empty.)
\<close>

definition random_choice :: "'a list \<Rightarrow> nat \<Rightarrow> 'a" where
  "random_choice seq r = seq ! (r mod length seq)"

text \<open>\<open>rnd k\<close> is the raw output of the generator at the \<open>k\<close>-th of the six calls.\<close>

definition generate_short_code :: "(nat \<Rightarrow> nat) \<Rightarrow> string" where
  "generate_short_code rnd = map (\<lambda>k. random_choice characters (rnd k)) [0..<6]"

section \<open>Creating a link\<close>

text \<open>
  The \<^verbatim>\<open>INSERT INTO links (original_url, short_code, expiry_date)\<close> of \<^verbatim>\<open>index\<close>.
  \<^verbatim>\<open>short_code\<close> is \<^verbatim>\<open>UNIQUE\<close>: a row with the same code makes SQLite refuse the
  insert, which \<^verbatim>\<open>sqlite3\<close> raises as \<^verbatim>\<open>IntegrityError\<close>. The column
  \<^verbatim>\<open>expiry_date DATETIME\<close> has NUMERIC affinity: SQLite stores a text that is a
  well-formed number as that number and any other text as it is. That conversion is
  SQLite's, not this program's; it is the parameter \<open>aff\<close>.
\<close>

definition links_insert ::
  "(string \<Rightarrow> sql_value) \<Rightarrow> db \<Rightarrow> datetime \<Rightarrow> string \<Rightarrow> string \<Rightarrow> string \<Rightarrow> error + db" where
  "links_insert aff d utc url code expiry =
     (if \<exists>l \<in> set (links d). short_code l = code then Inl IntegrityError
      else
        let i = next_id (links_seq d) (map link_id (links d)) in
        Inr (d\<lparr>links := links d @
                 [\<lparr>link_id = i, original_url = url, short_code = code,
                   expiry_date = aff expiry, created_at = sqlite_datetime utc\<rparr>],
               links_seq := i\<rparr>))"

text \<open>
  \<^verbatim>\<open>index\<close>. \<^verbatim>\<open>request.form[key]\<close> raises \<^verbatim>\<open>BadRequestKeyError\<close> for a missing field.
  An exception inside \<^verbatim>\<open>with sqlite3.connect(...) as conn\<close> rolls the transaction back
  and leaves the block, so the store is as before and the caller gets the exception.
\<close>

definition index ::
  "(string \<Rightarrow> sql_value) \<Rightarrow> db \<Rightarrow> clock \<Rightarrow> (nat \<Rightarrow> nat) \<Rightarrow> request \<Rightarrow> (error + response) \<times> db" where
  "index aff d clk rnd req =
     (if request_method req = ''POST'' then
        (case map_of (form req) ''url'' of
           None \<Rightarrow> (Inl BadRequestKeyError, d)
         | Some url \<Rightarrow>
        (case map_of (form req) ''expiry_date'' of
           None \<Rightarrow> (Inl BadRequestKeyError, d)
         | Some expiry \<Rightarrow>
             let code = generate_short_code rnd in
             (case links_insert aff d (utc_now clk) url code expiry of
                Inl e \<Rightarrow> (Inl e, d)
              | Inr d' \<Rightarrow>
                  (Inr (Template ''index.html''
                          [(''short_url'', host_url req @ code), (''original_url'', url)] 200),
                   d'))))
      else (Inr (Template ''index.html'' [] 200), d))"

section \<open>Redirecting\<close>

text \<open>
  The \<^verbatim>\<open>INSERT INTO clicks\<close> of \<^verbatim>\<open>redirect_to_original\<close>. The table declares a
  foreign key to \<^verbatim>\<open>links(short_code)\<close>, but SQLite enforces foreign keys only after
  \<^verbatim>\<open>PRAGMA foreign_keys = ON\<close>, which the program never issues: the insert does not look
  at \<^verbatim>\<open>links\<close>.
\<close>

definition clicks_insert :: "db \<Rightarrow> datetime \<Rightarrow> string \<Rightarrow> string option \<Rightarrow> string \<Rightarrow> db" where
  "clicks_insert d utc code ip ua =
     (let i = next_id (clicks_seq d) (map click_id (clicks d)) in
      d\<lparr>clicks := clicks d @
           [\<lparr>click_id = i, click_short_code = code, clicked_at = sqlite_datetime utc,
             ip_address = ip, user_agent = ua\<rparr>],
        clicks_seq := i\<rparr>)"

text \<open>Python's truth value of a column value read back from SQLite.\<close>

fun truthy :: "sql_value \<Rightarrow> bool" where
  "truthy SNull = False"
| "truthy (SInt i) = (i \<noteq> 0)"
| "truthy (SReal r) = (r \<noteq> 0)"
| "truthy (SText s) = (s \<noteq> [])"

text \<open>
  The condition of line 152,
  \<^verbatim>\<open>expiry_date and datetime.now() > datetime.strptime(expiry_date, '%Y-%m-%dT%H:%M')\<close>.
  \<^verbatim>\<open>strptime\<close> raises \<^verbatim>\<open>TypeError\<close> for an argument that is not a string and
  \<^verbatim>\<open>ValueError\<close> for a string that does not match.
\<close>

definition is_expired :: "sql_value \<Rightarrow> datetime \<Rightarrow> error + bool" where
  "is_expired v now =
     (if \<not> truthy v then Inr False
      else case v of
        SText s \<Rightarrow> (case strptime s of Inl e \<Rightarrow> Inl e | Inr t \<Rightarrow> Inr (dt_less t now))
      | _ \<Rightarrow> Inl TypeError)"

text \<open>
  Flask's \<^verbatim>\<open>redirect(location)\<close> builds the response and sets its \<^verbatim>\<open>Location\<close>
  header to the location. A header value must not contain a carriage return or a line
  feed: for such a location setting the header raises \<^verbatim>\<open>ValueError\<close>.
\<close>

definition redirect :: "string \<Rightarrow> error + response" where
  "redirect location =
     (if CHR 0x0D \<in> set location \<or> CHR 0x0A \<in> set location then Inl ValueError
      else Inr (Redirect location))"

text \<open>
  \<^verbatim>\<open>redirect_to_original\<close>. The click is inserted and committed before the result of
  the lookup is inspected, so it stays whatever the answer is, also when line 152 or
  line 155 raises.
\<close>

definition redirect_to_original ::
  "db \<Rightarrow> clock \<Rightarrow> request \<Rightarrow> string \<Rightarrow> (error + response) \<times> db" where
  "redirect_to_original d clk req code =
     (let d' = clicks_insert d (utc_now clk) code (remote_addr req) (user_agent_string req);
          result = find (\<lambda>l. short_code l = code) (links d')
      in (case result of
            Some l \<Rightarrow>
              (case is_expired (expiry_date l) (local_now clk) of
                 Inl e \<Rightarrow> Inl e
               | Inr expired \<Rightarrow>
                   if expired
                   then Inr (Template ''error.html'' [(''message'', ''This URL has expired'')] 410)
                   else redirect (original_url l))
          | None \<Rightarrow> Inr (Template ''error.html'' [(''message'', ''URL not found'')] 404),
          d'))"

section \<open>Listing links with their click counts\<close>

text \<open>
  \<^verbatim>\<open>FROM links l LEFT JOIN clicks c ON l.short_code = c.short_code\<close>: every link
  paired with each click of its code, or once with an all-NULL click when it has none.
\<close>

definition left_join :: "link list \<Rightarrow> click list \<Rightarrow> (link \<times> click option) list" where
  "left_join ls cs =
     concat (map (\<lambda>l.
       case filter (\<lambda>c. short_code l = click_short_code c) cs of
         [] \<Rightarrow> [(l, None)]
       | ms \<Rightarrow> map (\<lambda>c. (l, Some c)) ms) ls)"

text \<open>
  \<^verbatim>\<open>SELECT l.*, COUNT(c.id) ... GROUP BY l.id\<close>: one row per value of \<^verbatim>\<open>l.id\<close>, with
  the columns of \<^verbatim>\<open>l\<close> from a row of the group and the number of rows of the group whose
  \<^verbatim>\<open>c.id\<close> is not NULL.
\<close>

fun group_by_id :: "(link \<times> click option) list \<Rightarrow> (link \<times> nat) list" where
  "group_by_id [] = []"
| "group_by_id (r # rs) =
     (fst r, length (filter (\<lambda>x. link_id (fst x) = link_id (fst r) \<and> snd x \<noteq> None) (r # rs)))
     # group_by_id (filter (\<lambda>x. link_id (fst x) \<noteq> link_id (fst r)) rs)"

text \<open>
  \<^verbatim>\<open>ORDER BY l.created_at DESC\<close>, the texts compared bytewise. SQL leaves the order of
  rows with equal keys open; here they keep the order they came in.
\<close>

fun insert_desc :: "(link \<times> nat) \<Rightarrow> (link \<times> nat) list \<Rightarrow> (link \<times> nat) list" where
  "insert_desc r [] = [r]"
| "insert_desc r (x # xs) =
     (if text_lt (created_at (fst r)) (created_at (fst x)) then x # insert_desc r xs
      else r # x # xs)"

definition order_by_created_at_desc :: "(link \<times> nat) list \<Rightarrow> (link \<times> nat) list" where
  "order_by_created_at_desc rows = foldr insert_desc rows []"

text \<open>\<^verbatim>\<open>all_links\<close>: the rows handed to the template as \<^verbatim>\<open>links\<close>.\<close>

definition all_links :: "db \<Rightarrow> (link \<times> nat) list" where
  "all_links d = order_by_created_at_desc (group_by_id (left_join (links d) (clicks d)))"

section \<open>The process\<close>

text \<open>
  What the module does at top level, in the order of the file: it creates the
  \<^verbatim>\<open>BackgroundScheduler\<close>, adds \<^verbatim>\<open>delete_expired_links\<close> with
  \<^verbatim>\<open>trigger='interval', hours=1\<close> and starts it (lines 50 to 52); only when the file is
  run as the main program it then calls \<^verbatim>\<open>init_db()\<close>, \<^verbatim>\<open>app.run\<close> and, in the
  \<^verbatim>\<open>finally\<close> of the \<^verbatim>\<open>try\<close> around \<^verbatim>\<open>app.run\<close>, \<^verbatim>\<open>scheduler.shutdown()\<close>
  (lines 199 to 204).
\<close>

datatype stmt =
  SchedulerNew | SchedulerAddJob | SchedulerStart | InitDb | AppRun | SchedulerShutdown

definition module_body :: "bool \<Rightarrow> stmt list" where
  "module_body is_main =
     [SchedulerNew, SchedulerAddJob, SchedulerStart] @
     (if is_main then [InitDb, AppRun, SchedulerShutdown] else [])"

text \<open>
  The state of the process: the store (\<open>None\<close> while the tables do not exist), whether
  the scheduler is running, and the jobs it holds, each the name of the function and the
  interval in seconds. \<^verbatim>\<open>scheduler.shutdown()\<close> stops the scheduler and empties its job
  store.
\<close>

record process =
  store :: "db option"
  sched_running :: bool
  sched_jobs :: "(string \<times> nat) list"

text \<open>\<^verbatim>\<open>init_db\<close>: \<^verbatim>\<open>CREATE TABLE IF NOT EXISTS\<close> for both tables.\<close>

definition init_db :: "db option \<Rightarrow> db option" where
  "init_db s = (case s of None \<Rightarrow> Some empty_db | Some d \<Rightarrow> Some d)"

fun exec :: "stmt \<Rightarrow> process \<Rightarrow> process" where
  "exec SchedulerNew p = p\<lparr>sched_running := False, sched_jobs := []\<rparr>"
| "exec SchedulerAddJob p =
     p\<lparr>sched_jobs := sched_jobs p @ [(''delete_expired_links'', 1 * 3600)]\<rparr>"
| "exec SchedulerStart p = p\<lparr>sched_running := True\<rparr>"
| "exec InitDb p = p\<lparr>store := init_db (store p)\<rparr>"
| "exec AppRun p = p"
| "exec SchedulerShutdown p = p\<lparr>sched_running := False, sched_jobs := []\<rparr>"

definition run_stmts :: "stmt list \<Rightarrow> process \<Rightarrow> process" where
  "run_stmts ss p = foldl (\<lambda>q s. exec s q) p ss"

text \<open>
  The scheduler calls a job by its function; the only function the program registers is
  \<^verbatim>\<open>delete_expired_links\<close>. Without the tables its \<^verbatim>\<open>DELETE\<close> fails inside the job
  and nothing changes.
\<close>

definition run_job :: "string \<Rightarrow> datetime \<Rightarrow> db option \<Rightarrow> db option" where
  "run_job name utc s =
     (if name = ''delete_expired_links'' then map_option (\<lambda>d. delete_expired_links d utc) s
      else s)"

text \<open>
  The scheduler's thread when another \<open>secs\<close> seconds have elapsed, at UTC time \<open>utc\<close>:
  a running scheduler calls the jobs of that interval, one after the other; a stopped
  one calls nothing.
\<close>

definition interval_elapsed :: "nat \<Rightarrow> datetime \<Rightarrow> process \<Rightarrow> process" where
  "interval_elapsed secs utc p =
     (if sched_running p
      then p\<lparr>store :=
               foldl (\<lambda>s job. if snd job = secs then run_job (fst job) utc s else s)
                 (store p) (sched_jobs p)\<rparr>
      else p)"

text \<open>One interval after the other, at the times \<open>utcs\<close>.\<close>

definition intervals_elapsed :: "nat \<Rightarrow> datetime list \<Rightarrow> process \<Rightarrow> process" where
  "intervals_elapsed secs utcs p = foldl (\<lambda>q utc. interval_elapsed secs utc q) p utcs"

text \<open>The sweep run once at each of the times \<open>utcs\<close>, in that order.\<close>

definition sweeps :: "datetime list \<Rightarrow> db \<Rightarrow> db" where
  "sweeps utcs d = foldl delete_expired_links d utcs"

text \<open>
  The property of a statement list that the scheduler is started only after the store
  has been initialised: no \<^verbatim>\<open>scheduler.start()\<close> comes before the first \<^verbatim>\<open>init_db()\<close>.
\<close>

fun started_after_init :: "stmt list \<Rightarrow> bool" where
  "started_after_init [] = True"
| "started_after_init (s # ss) =
     (if s = InitDb then True
      else if s = SchedulerStart then False
      else started_after_init ss)"

section \<open>Example states\<close>

text \<open>
  A store at noon of 1 January 2024 with three links: one whose expiry passed two hours
  ago on the same day, one created with the expiry field left blank, and one that
  expired the day before.
\<close>

definition noon :: datetime where
  "noon = \<lparr>year = 2024, month = 1, day = 1, hour = 12, minute = 0, second = 0,
            microsecond = 0\<rparr>"

definition link_a :: link where
  "link_a = \<lparr>link_id = 1, original_url = ''https://example.com'', short_code = ''Ab3dE9'',
              expiry_date = SText ''2024-01-01T10:00'', created_at = ''2023-12-30 08:00:00''\<rparr>"

definition link_b :: link where
  "link_b = \<lparr>link_id = 2, original_url = ''https://example.org'', short_code = ''ahovCJ'',
              expiry_date = SText [], created_at = ''2023-12-31 09:30:00''\<rparr>"

definition link_c :: link where
  "link_c = \<lparr>link_id = 3, original_url = ''https://example.net'', short_code = ''Zz0123'',
              expiry_date = SText ''2023-12-31T23:59'', created_at = ''2023-12-31 09:30:00''\<rparr>"

definition click_a :: click where
  "click_a = \<lparr>click_id = 1, click_short_code = ''Ab3dE9'', clicked_at = ''2023-12-31 10:00:00'',
               ip_address = Some ''127.0.0.1'', user_agent = ''curl''\<rparr>"

definition db0 :: db where
  "db0 = \<lparr>links = [link_a, link_b, link_c], clicks = [click_a], links_seq = 3,
           clicks_seq = 1\<rparr>"

definition clk_noon :: clock where
  "clk_noon = \<lparr>utc_now = noon, local_now = noon\<rparr>"

definition req_get :: request where
  "req_get = \<lparr>request_method = ''GET'', form = [], remote_addr = Some ''127.0.0.1'',
               user_agent_string = ''curl'', host_url = ''http://localhost/''\<rparr>"

definition req_post :: request where
  "req_post = \<lparr>request_method = ''POST'',
                form = [(''url'', ''https://example.com/x''), (''expiry_date'', [])],
                remote_addr = Some ''127.0.0.1'', user_agent_string = ''curl'',
                host_url = ''http://localhost/''\<rparr>"

text \<open>
  Two links whose \<^verbatim>\<open>original_url\<close> holds a line feed and a carriage return, as
  \<^verbatim>\<open>POST /\<close> stores them from the form field \<^verbatim>\<open>url\<close>: the first with an expiry in
  2030, the second with the expiry field left blank.
\<close>

definition url_lf :: string where
  "url_lf = ''https://example.com/'' @ [CHR 0x0A] @ ''x''"

definition url_cr :: string where
  "url_cr = ''https://example.org/'' @ [CHR 0x0D] @ ''y''"

definition post_lf :: request where
  "post_lf = \<lparr>request_method = ''POST'',
               form = [(''url'', url_lf), (''expiry_date'', ''2030-01-01T00:00'')],
               remote_addr = Some ''127.0.0.1'', user_agent_string = ''curl'',
               host_url = ''http://localhost/''\<rparr>"

definition post_cr :: request where
  "post_cr = \<lparr>request_method = ''POST'',
               form = [(''url'', url_cr), (''expiry_date'', [])],
               remote_addr = Some ''127.0.0.1'', user_agent_string = ''curl'',
               host_url = ''http://localhost/''\<rparr>"

definition link_lf :: link where
  "link_lf = \<lparr>link_id = 1, original_url = url_lf, short_code = ''abcdef'',
               expiry_date = SText ''2030-01-01T00:00'', created_at = ''2024-01-01 12:00:00''\<rparr>"

definition link_cr :: link where
  "link_cr = \<lparr>link_id = 2, original_url = url_cr, short_code = ''ahovCJ'',
               expiry_date = SText [], created_at = ''2024-01-01 12:00:00''\<rparr>"

definition db1 :: db where
  "db1 = \<lparr>links = [link_lf, link_cr], clicks = [], links_seq = 2, clicks_seq = 0\<rparr>"

text \<open>A process at its start, before any table exists.\<close>

definition fresh_process :: process where
  "fresh_process = \<lparr>store = None, sched_running = False, sched_jobs = []\<rparr>"

section \<open>Text and decimal fields\<close>

lemma lt10_cases:
  "k < (10::nat) \<Longrightarrow>
   k = 0 \<or> k = 1 \<or> k = 2 \<or> k = 3 \<or> k = 4 \<or> k = 5 \<or> k = 6 \<or> k = 7 \<or> k = 8 \<or> k = 9"
  by arith

lemma nth_digits: "k < 10 \<Longrightarrow> (of_char (''0123456789'' ! k) :: nat) = 48 + k"
  by (drule lt10_cases) auto

lemma of_char_digit_char: "(of_char (digit_char n) :: nat) = 48 + n mod 10"
  unfolding digit_char_def by (rule nth_digits) simp

lemma digit_char_eq: "digit_char n = c \<longleftrightarrow> 48 + n mod 10 = (of_char c :: nat)"
  by (metis of_char_digit_char of_char_eq_iff)



lemma pad2_split: "r < 10 \<Longrightarrow> pad2 (10 * q + r) = [digit_char q, digit_char r]"
  by (simp add: pad2_def digit_char_def)

lemma two_digit_cases:
  fixes n :: nat
  obtains q r where "n = 10 * q + r" "r < 10"
  using mult_div_mod_eq [of 10 n] by (metis mod_less_divisor zero_less_numeral)
















section \<open>The code generator\<close>

lemma length_characters: "length characters = 62"
  by (simp add: characters_def ascii_letters_def ascii_lowercase_def ascii_uppercase_def
      digits_def)

lemma distinct_characters: "distinct characters"
  by (simp add: characters_def ascii_letters_def ascii_lowercase_def ascii_uppercase_def
      digits_def)

lemma random_choice_mem: "seq \<noteq> [] \<Longrightarrow> random_choice seq r \<in> set seq"
  by (simp add: random_choice_def)

lemma characters_index_unique:
  assumes "c \<in> set characters"
  shows "\<exists>!i. i < 62 \<and> characters ! i = c"
proof -
  from assms obtain i where i: "i < length characters" "characters ! i = c"
    by (auto simp: in_set_conv_nth)
  show ?thesis
  proof (rule ex1I [of _ i])
    show "i < 62 \<and> characters ! i = c" using i by (simp add: length_characters)
  next
    fix j assume "j < 62 \<and> characters ! j = c"
    then have "j < length characters" "characters ! j = characters ! i"
      using i by (simp_all add: length_characters)
    then show "j = i"
      using i(1) distinct_characters nth_eq_iff_index_eq by blast
  qed
qed

text \<open>
  C6. Every code the generator returns has length 6 and consists of characters of the
  alphabet, which is the 26 lowercase letters, the 26 uppercase letters and the 10
  digits, 62 characters without repetition. The character at each of the six positions
  is the alphabet's entry at that call's own random index below 62, and every character
  of the alphabet sits at exactly one index, so an index drawn uniformly (what
  \<^verbatim>\<open>random.choice\<close> does) gives each character with the same chance.
\<close>

theorem generate_short_code_shape:
  "length (generate_short_code rnd) = 6
   \<and> set (generate_short_code rnd) \<subseteq> set characters
   \<and> characters = ascii_lowercase @ ascii_uppercase @ digits
   \<and> length ascii_lowercase = 26 \<and> length ascii_uppercase = 26 \<and> length digits = 10
   \<and> distinct characters
   \<and> (\<forall>k<6. generate_short_code rnd ! k = characters ! (rnd k mod 62))
   \<and> (\<forall>c \<in> set characters. \<exists>!i. i < 62 \<and> characters ! i = c)"
proof -
  have ne: "characters \<noteq> []" using length_characters by auto
  have 1: "length (generate_short_code rnd) = 6" by (simp add: generate_short_code_def)
  have 2: "set (generate_short_code rnd) \<subseteq> set characters"
    using ne by (auto simp: generate_short_code_def random_choice_mem)
  have 3: "characters = ascii_lowercase @ ascii_uppercase @ digits"
    by (simp add: characters_def ascii_letters_def)
  have 4: "length ascii_lowercase = 26 \<and> length ascii_uppercase = 26 \<and> length digits = 10"
    by (simp add: ascii_lowercase_def ascii_uppercase_def digits_def)
  have 5: "\<forall>k<6. generate_short_code rnd ! k = characters ! (rnd k mod 62)"
    by (simp add: generate_short_code_def random_choice_def length_characters)
  show ?thesis using 1 2 3 4 5 distinct_characters characters_index_unique by blast
qed

theorem generate_short_code_shape_witness:
  "generate_short_code (\<lambda>k. 7 * k) = ''ahovCJ''
   \<and> set (generate_short_code (\<lambda>k. 7 * k)) \<subseteq> set characters
   \<and> (2::nat) < 6 \<and> generate_short_code (\<lambda>k. 7 * k) ! 2 = characters ! ((7 * 2) mod 62)
   \<and> CHR ''C'' \<in> set characters \<and> (\<exists>!i. i < 62 \<and> characters ! i = CHR ''C'')"
proof -
  note t = generate_short_code_shape [of "\<lambda>k. 7 * k"]
  have e: "generate_short_code (\<lambda>k. 7 * k) = ''ahovCJ''"
    by (simp add: generate_short_code_def random_choice_def characters_def ascii_letters_def
        ascii_lowercase_def ascii_uppercase_def digits_def upt_rec)
  have m: "CHR ''C'' \<in> set characters"
    by (simp add: characters_def ascii_letters_def ascii_lowercase_def ascii_uppercase_def)
  have s: "set (generate_short_code (\<lambda>k. 7 * k)) \<subseteq> set characters" using t by blast
  have k: "\<forall>k<6. generate_short_code (\<lambda>k. 7 * k) ! k = characters ! (7 * k mod 62)"
    using t by blast
  have k2: "generate_short_code (\<lambda>k. 7 * k) ! 2 = characters ! ((7 * 2) mod 62)"
  proof -
    have "(2::nat) < 6" by simp
    with k show ?thesis by blast
  qed
  have u: "\<forall>c \<in> set characters. \<exists>!i. i < 62 \<and> characters ! i = c" using t by blast
  have u2: "\<exists>!i. i < 62 \<and> characters ! i = CHR ''C''" using u m by blast
  show ?thesis using e s k2 m u2 by simp
qed

section \<open>The expiry evaluation\<close>



section \<open>The constraints of the links table\<close>

text \<open>
  The theorems about the handlers assume what the schema enforces: no two links share a
  \<^verbatim>\<open>short_code\<close> (\<^verbatim>\<open>UNIQUE\<close>) or an \<^verbatim>\<open>id\<close> (\<^verbatim>\<open>PRIMARY KEY\<close>). Every operation
  of the program keeps both, starting from the empty tables.
\<close>

lemma foldr_max_ge: "i \<in> set ids \<Longrightarrow> i \<le> foldr max ids (seq :: int)"
  by (induction ids) auto

lemma next_id_fresh: "next_id seq ids \<notin> set ids"
proof
  assume "next_id seq ids \<in> set ids"
  then have "next_id seq ids \<le> foldr max ids seq" by (rule foldr_max_ge)
  then show False by (simp add: next_id_def)
qed

lemma links_insert_keeps_constraints:
  assumes "links_insert aff d utc url code expiry = Inr d'"
    and "distinct (map short_code (links d))" "distinct (map link_id (links d))"
  shows "distinct (map short_code (links d')) \<and> distinct (map link_id (links d'))"
proof -
  have c: "code \<notin> set (map short_code (links d))"
    using assms(1) by (auto simp: links_insert_def split: if_splits)
  have l: "links d' = links d @
      [\<lparr>link_id = next_id (links_seq d) (map link_id (links d)), original_url = url,
        short_code = code, expiry_date = aff expiry, created_at = sqlite_datetime utc\<rparr>]"
    using assms(1) by (auto simp: links_insert_def Let_def split: if_splits)
  show ?thesis
    unfolding l using c assms(2,3) next_id_fresh [of "links_seq d" "map link_id (links d)"]
    by simp
qed

lemma index_keeps_constraints:
  assumes "distinct (map short_code (links d))" "distinct (map link_id (links d))"
  shows "distinct (map short_code (links (snd (index aff d clk rnd req))))
    \<and> distinct (map link_id (links (snd (index aff d clk rnd req))))"
  using assms links_insert_keeps_constraints [OF _ assms]
  by (auto simp: index_def Let_def split: option.splits sum.splits)

lemma sweep_keeps_constraints:
  assumes "distinct (map short_code (links d))" "distinct (map link_id (links d))"
  shows "distinct (map short_code (links (delete_expired_links d utc)))
    \<and> distinct (map link_id (links (delete_expired_links d utc)))"
  using assms by (simp add: delete_expired_links_def distinct_map_filter)

lemma empty_db_constraints:
  "distinct (map short_code (links empty_db)) \<and> distinct (map link_id (links empty_db))"
  by (simp add: empty_db_def)

lemma find_unique_code:
  "distinct (map short_code ls) \<Longrightarrow> l \<in> set ls \<Longrightarrow>
   find (\<lambda>x. short_code x = short_code l) ls = Some l"
proof (induction ls)
  case Nil
  then show ?case by simp
next
  case (Cons a ls)
  show ?case
  proof (cases "a = l")
    case True
    then show ?thesis by simp
  next
    case False
    with Cons.prems have l: "l \<in> set ls" by simp
    with Cons.prems have "short_code a \<noteq> short_code l" by auto
    with Cons l show ?thesis by simp
  qed
qed

lemma find_absent_code:
  "code \<notin> set (map short_code ls) \<Longrightarrow> find (\<lambda>x. short_code x = code) ls = None"
  by (auto simp: find_None_iff)

lemma links_clicks_insert: "links (clicks_insert d utc code ip ua) = links d"
  by (simp add: clicks_insert_def Let_def)

lemma redirect_links_unchanged: "links (snd (redirect_to_original d clk req code)) = links d"
  by (simp add: redirect_to_original_def Let_def links_clicks_insert)

lemma redirect_absent:
  assumes "code \<notin> set (map short_code (links d))"
  shows "fst (redirect_to_original d clk req code) =
          Inr (Template ''error.html'' [(''message'', ''URL not found'')] 404)"
proof -
  have "find (\<lambda>x. short_code x = code) (links d) = None"
    using assms by (rule find_absent_code)
  then show ?thesis by (simp add: redirect_to_original_def Let_def links_clicks_insert)
qed

lemma redirect_plain:
  "CHR 0x0D \<notin> set u \<Longrightarrow> CHR 0x0A \<notin> set u \<Longrightarrow> redirect u = Inr (Redirect u)"
  by (simp add: redirect_def)

lemma redirect_newline:
  "CHR 0x0D \<in> set u \<or> CHR 0x0A \<in> set u \<Longrightarrow> redirect u = Inl ValueError"
  by (auto simp: redirect_def)

lemma redirect_found:
  assumes "distinct (map short_code (links d))" "l \<in> set (links d)"
    and "is_expired (expiry_date l) (local_now clk) = Inr b"
  shows "fst (redirect_to_original d clk req (short_code l)) =
          (if b then Inr (Template ''error.html'' [(''message'', ''This URL has expired'')] 410)
           else redirect (original_url l))"
proof -
  have "find (\<lambda>x. short_code x = short_code l) (links d) = Some l"
    using assms(1,2) by (rule find_unique_code)
  then show ?thesis
    using assms(3) by (simp add: redirect_to_original_def Let_def links_clicks_insert)
qed

lemma example_codes_distinct: "distinct (map short_code (links db0))"
  by (simp add: db0_def link_a_def link_b_def link_c_def)

lemma example_expiry:
  "is_expired (expiry_date link_a) (local_now clk_noon) = Inr True"
  "is_expired (expiry_date link_b) (local_now clk_noon) = Inr False"
  by (simp_all add: link_a_def link_b_def clk_noon_def noon_def is_expired_def strptime_def
      split_at_def is_digit_def digit_val_def valid_date_def days_in_month_def dt_less_def
      dt_key_def)

lemma example_plain_url:
  "CHR 0x0D \<notin> set (original_url link_b)" "CHR 0x0A \<notin> set (original_url link_b)"
  by (simp_all add: link_b_def)

text \<open>
  The store \<open>db1\<close> is what two creation requests leave of the empty tables: the program
  stores a \<^verbatim>\<open>url\<close> with a line feed or a carriage return as it is.
\<close>

lemma example_db1_created:
  "snd (index SText (snd (index SText empty_db clk_noon (\<lambda>k. k) post_lf)) clk_noon
         (\<lambda>k. 7 * k) post_cr) = db1"
proof -
  have g: "generate_short_code (\<lambda>k. k) = ''abcdef''" "generate_short_code (\<lambda>k. 7 * k) = ''ahovCJ''"
    by (simp_all add: generate_short_code_def random_choice_def characters_def
        ascii_letters_def ascii_lowercase_def ascii_uppercase_def digits_def upt_rec)
  have n: "sqlite_datetime (utc_now clk_noon) = ''2024-01-01 12:00:00''"
    by (simp add: clk_noon_def noon_def sqlite_datetime_def pad2_def pad4_def digit_char_def)
  have 1: "snd (index SText empty_db clk_noon (\<lambda>k. k) post_lf) =
      \<lparr>links = [link_lf], clicks = [], links_seq = 1, clicks_seq = 0\<rparr>"
    by (simp add: index_def links_insert_def Let_def g n post_lf_def empty_db_def next_id_def
        link_lf_def)
  show ?thesis
    unfolding 1
    by (simp add: index_def links_insert_def Let_def g n post_cr_def next_id_def link_lf_def
        link_cr_def db1_def)
qed

lemma example_db1:
  "distinct (map short_code (links db1))"
  "link_lf \<in> set (links db1)" "link_cr \<in> set (links db1)"
  "is_expired (expiry_date link_lf) (local_now clk_noon) = Inr False"
  "is_expired (expiry_date link_cr) (local_now clk_noon) = Inr False"
  "CHR 0x0A \<in> set (original_url link_lf)" "CHR 0x0D \<in> set (original_url link_cr)"
  by (simp_all add: db1_def link_lf_def link_cr_def url_lf_def url_cr_def clk_noon_def noon_def
      is_expired_def strptime_def split_at_def is_digit_def digit_val_def valid_date_def
      days_in_month_def dt_less_def dt_key_def)

section \<open>The redirect handler\<close>

text \<open>
  C1 as stated fails for a link that exists and is not expired when its
  \<^verbatim>\<open>original_url\<close> holds a line feed: \<open>link_lf\<close>, created through \<^verbatim>\<open>POST /\<close>, expires
  in 2030, and at noon of 1 January 2024 the request for its code is not answered with a
  redirect: line 155 raises \<^verbatim>\<open>ValueError\<close>.
\<close>

theorem redirect_fails_on_line_feed:
  "snd (index SText (snd (index SText empty_db clk_noon (\<lambda>k. k) post_lf)) clk_noon
         (\<lambda>k. 7 * k) post_cr) = db1
   \<and> distinct (map short_code (links db1))
   \<and> link_lf \<in> set (links db1) \<and> short_code link_lf = ''abcdef''
   \<and> is_expired (expiry_date link_lf) (local_now clk_noon) = Inr False
   \<and> fst (redirect_to_original db1 clk_noon req_get ''abcdef'') = Inl ValueError
   \<and> fst (redirect_to_original db1 clk_noon req_get ''abcdef'') \<noteq>
       Inr (Redirect (original_url link_lf))"
proof -
  have c: "short_code link_lf = ''abcdef''" by (simp add: link_lf_def)
  have "fst (redirect_to_original db1 clk_noon req_get (short_code link_lf)) =
      redirect (original_url link_lf)"
    using redirect_found [OF example_db1(1,2,4), of req_get] by simp
  also have "\<dots> = Inl ValueError"
    using example_db1(6) by (simp add: redirect_newline)
  finally have r: "fst (redirect_to_original db1 clk_noon req_get ''abcdef'') = Inl ValueError"
    by (simp add: c)
  show ?thesis
    using example_db1_created example_db1(1,2,4) c r by simp
qed

text \<open>
  C1, amended. In a store whose short codes are unique, a redirect request for a code
  that no link has is answered with the not-found page and status 404; for the code of a
  link that the expiry evaluation finds not expired, with a redirect to that link's
  \<^verbatim>\<open>original_url\<close> when the url holds no carriage return and no line feed, and with
  \<^verbatim>\<open>ValueError\<close> raised when it holds one; for the code of a link found expired, with
  the expired page and status 410, and that link is still in the store. The table of
  links after the handler is the table before it, in every case.
\<close>

theorem redirect_to_original_responses:
  assumes "distinct (map short_code (links d))"
  shows
    "(code \<notin> set (map short_code (links d)) \<longrightarrow>
        fst (redirect_to_original d clk req code) =
          Inr (Template ''error.html'' [(''message'', ''URL not found'')] 404))
     \<and> (l \<in> set (links d) \<and> short_code l = code
          \<and> is_expired (expiry_date l) (local_now clk) = Inr False
          \<and> CHR 0x0D \<notin> set (original_url l) \<and> CHR 0x0A \<notin> set (original_url l) \<longrightarrow>
        fst (redirect_to_original d clk req code) = Inr (Redirect (original_url l)))
     \<and> (l \<in> set (links d) \<and> short_code l = code
          \<and> is_expired (expiry_date l) (local_now clk) = Inr False
          \<and> (CHR 0x0D \<in> set (original_url l) \<or> CHR 0x0A \<in> set (original_url l)) \<longrightarrow>
        fst (redirect_to_original d clk req code) = Inl ValueError)
     \<and> (l \<in> set (links d) \<and> short_code l = code
          \<and> is_expired (expiry_date l) (local_now clk) = Inr True \<longrightarrow>
        fst (redirect_to_original d clk req code) =
          Inr (Template ''error.html'' [(''message'', ''This URL has expired'')] 410)
        \<and> l \<in> set (links (snd (redirect_to_original d clk req code))))
     \<and> links (snd (redirect_to_original d clk req code)) = links d"
proof (intro conjI impI)
  assume "code \<notin> set (map short_code (links d))"
  then show "fst (redirect_to_original d clk req code) =
          Inr (Template ''error.html'' [(''message'', ''URL not found'')] 404)"
    by (rule redirect_absent)
next
  assume a: "l \<in> set (links d) \<and> short_code l = code
          \<and> is_expired (expiry_date l) (local_now clk) = Inr False
          \<and> CHR 0x0D \<notin> set (original_url l) \<and> CHR 0x0A \<notin> set (original_url l)"
  then have "fst (redirect_to_original d clk req code) = redirect (original_url l)"
    using redirect_found [OF assms, of l clk False req] by auto
  then show "fst (redirect_to_original d clk req code) = Inr (Redirect (original_url l))"
    using a by (simp add: redirect_plain)
next
  assume a: "l \<in> set (links d) \<and> short_code l = code
          \<and> is_expired (expiry_date l) (local_now clk) = Inr False
          \<and> (CHR 0x0D \<in> set (original_url l) \<or> CHR 0x0A \<in> set (original_url l))"
  then have "fst (redirect_to_original d clk req code) = redirect (original_url l)"
    using redirect_found [OF assms, of l clk False req] by auto
  then show "fst (redirect_to_original d clk req code) = Inl ValueError"
    using a by (simp add: redirect_newline)
next
  assume a: "l \<in> set (links d) \<and> short_code l = code
          \<and> is_expired (expiry_date l) (local_now clk) = Inr True"
  then show "fst (redirect_to_original d clk req code) =
          Inr (Template ''error.html'' [(''message'', ''This URL has expired'')] 410)"
    using redirect_found [OF assms, of l clk True req] by auto
  show "l \<in> set (links (snd (redirect_to_original d clk req code)))"
    using a by (simp add: redirect_links_unchanged)
next
  show "links (snd (redirect_to_original d clk req code)) = links d"
    by (rule redirect_links_unchanged)
qed

theorem redirect_to_original_responses_witness:
  "distinct (map short_code (links db0))
   \<and> fst (redirect_to_original db0 clk_noon req_get ''nope'') =
       Inr (Template ''error.html'' [(''message'', ''URL not found'')] 404)
   \<and> CHR 0x0D \<notin> set (original_url link_b) \<and> CHR 0x0A \<notin> set (original_url link_b)
   \<and> fst (redirect_to_original db0 clk_noon req_get ''ahovCJ'') =
       Inr (Redirect ''https://example.org'')
   \<and> CHR 0x0A \<in> set (original_url link_lf)
   \<and> fst (redirect_to_original db1 clk_noon req_get ''abcdef'') = Inl ValueError
   \<and> fst (redirect_to_original db0 clk_noon req_get ''Ab3dE9'') =
       Inr (Template ''error.html'' [(''message'', ''This URL has expired'')] 410)
   \<and> link_a \<in> set (links (snd (redirect_to_original db0 clk_noon req_get ''Ab3dE9'')))
   \<and> links (snd (redirect_to_original db0 clk_noon req_get ''Ab3dE9'')) = links db0"
proof -
  note d = example_codes_distinct
  have n: "''nope'' \<notin> set (map short_code (links db0))"
    by (simp add: db0_def link_a_def link_b_def link_c_def)
  have b: "link_b \<in> set (links db0) \<and> short_code link_b = ''ahovCJ''
      \<and> is_expired (expiry_date link_b) (local_now clk_noon) = Inr False
      \<and> CHR 0x0D \<notin> set (original_url link_b) \<and> CHR 0x0A \<notin> set (original_url link_b)"
    using example_plain_url by (simp add: example_expiry) (simp add: db0_def link_b_def)
  have a: "link_a \<in> set (links db0) \<and> short_code link_a = ''Ab3dE9''
      \<and> is_expired (expiry_date link_a) (local_now clk_noon) = Inr True"
    by (simp add: example_expiry) (simp add: db0_def link_a_def)
  have f: "link_lf \<in> set (links db1) \<and> short_code link_lf = ''abcdef''
      \<and> is_expired (expiry_date link_lf) (local_now clk_noon) = Inr False
      \<and> (CHR 0x0D \<in> set (original_url link_lf) \<or> CHR 0x0A \<in> set (original_url link_lf))"
    using example_db1(2,4,6) by (simp add: link_lf_def)
  have 1: "fst (redirect_to_original db0 clk_noon req_get ''nope'') =
       Inr (Template ''error.html'' [(''message'', ''URL not found'')] 404)"
    using redirect_to_original_responses [OF d, of "''nope''" clk_noon req_get] n by blast
  have 2: "fst (redirect_to_original db0 clk_noon req_get ''ahovCJ'') =
       Inr (Redirect (original_url link_b))"
    using redirect_to_original_responses [OF d, of "''ahovCJ''" clk_noon req_get link_b] b
    by blast
  have 3: "fst (redirect_to_original db0 clk_noon req_get ''Ab3dE9'') =
       Inr (Template ''error.html'' [(''message'', ''This URL has expired'')] 410)
     \<and> link_a \<in> set (links (snd (redirect_to_original db0 clk_noon req_get ''Ab3dE9'')))
     \<and> links (snd (redirect_to_original db0 clk_noon req_get ''Ab3dE9'')) = links db0"
    using redirect_to_original_responses [OF d, of "''Ab3dE9''" clk_noon req_get link_a] a
    by blast
  have 4: "fst (redirect_to_original db1 clk_noon req_get ''abcdef'') = Inl ValueError"
    using redirect_to_original_responses [OF example_db1(1), of "''abcdef''" clk_noon req_get
        link_lf] f
    by blast
  have u: "original_url link_b = ''https://example.org''" by (simp add: link_b_def)
  have r2: "fst (redirect_to_original db0 clk_noon req_get ''ahovCJ'') =
       Inr (Redirect ''https://example.org'')"
    using 2 u by simp
  show ?thesis using d 1 r2 3 4 example_plain_url example_db1(6) by blast
qed

text \<open>
  C4. Every redirect request appends exactly one row to the clicks table, the row of the
  requested code, whatever the links table holds: the number of clicks of that code
  grows by one. When no link has the code the handler still answers, with the not-found
  page, and raises nothing.
\<close>

theorem redirect_records_click:
  "clicks (snd (redirect_to_original d clk req code)) =
     clicks d @
     [\<lparr>click_id = next_id (clicks_seq d) (map click_id (clicks d)),
       click_short_code = code, clicked_at = sqlite_datetime (utc_now clk),
       ip_address = remote_addr req, user_agent = user_agent_string req\<rparr>]
   \<and> length (filter (\<lambda>c. click_short_code c = code)
        (clicks (snd (redirect_to_original d clk req code)))) =
      length (filter (\<lambda>c. click_short_code c = code) (clicks d)) + 1
   \<and> (code \<notin> set (map short_code (links d)) \<longrightarrow>
        fst (redirect_to_original d clk req code) =
          Inr (Template ''error.html'' [(''message'', ''URL not found'')] 404))"
proof (intro conjI impI)
  show c: "clicks (snd (redirect_to_original d clk req code)) =
     clicks d @
     [\<lparr>click_id = next_id (clicks_seq d) (map click_id (clicks d)),
       click_short_code = code, clicked_at = sqlite_datetime (utc_now clk),
       ip_address = remote_addr req, user_agent = user_agent_string req\<rparr>]"
    by (simp add: redirect_to_original_def clicks_insert_def Let_def)
  show "length (filter (\<lambda>c. click_short_code c = code)
        (clicks (snd (redirect_to_original d clk req code)))) =
      length (filter (\<lambda>c. click_short_code c = code) (clicks d)) + 1"
    by (simp add: c)
next
  assume "code \<notin> set (map short_code (links d))"
  then show "fst (redirect_to_original d clk req code) =
          Inr (Template ''error.html'' [(''message'', ''URL not found'')] 404)"
    by (rule redirect_absent)
qed

theorem redirect_records_click_witness:
  "''nope'' \<notin> set (map short_code (links db0))
   \<and> fst (redirect_to_original db0 clk_noon req_get ''nope'') =
       Inr (Template ''error.html'' [(''message'', ''URL not found'')] 404)
   \<and> clicks (snd (redirect_to_original db0 clk_noon req_get ''nope'')) =
       [click_a,
        \<lparr>click_id = 2, click_short_code = ''nope'', clicked_at = ''2024-01-01 12:00:00'',
          ip_address = Some ''127.0.0.1'', user_agent = ''curl''\<rparr>]"
proof -
  have n: "''nope'' \<notin> set (map short_code (links db0))"
    by (simp add: db0_def link_a_def link_b_def link_c_def)
  note t = redirect_records_click [of db0 clk_noon req_get "''nope''"]
  have 1: "fst (redirect_to_original db0 clk_noon req_get ''nope'') =
       Inr (Template ''error.html'' [(''message'', ''URL not found'')] 404)"
    using t n by blast
  have 2: "clicks (snd (redirect_to_original db0 clk_noon req_get ''nope'')) =
     clicks db0 @
     [\<lparr>click_id = next_id (clicks_seq db0) (map click_id (clicks db0)),
       click_short_code = ''nope'', clicked_at = sqlite_datetime (utc_now clk_noon),
       ip_address = remote_addr req_get, user_agent = user_agent_string req_get\<rparr>]"
    using t by blast
  have 3: "clicks db0 @
     [\<lparr>click_id = next_id (clicks_seq db0) (map click_id (clicks db0)),
       click_short_code = ''nope'', clicked_at = sqlite_datetime (utc_now clk_noon),
       ip_address = remote_addr req_get, user_agent = user_agent_string req_get\<rparr>] =
       [click_a,
        \<lparr>click_id = 2, click_short_code = ''nope'', clicked_at = ''2024-01-01 12:00:00'',
          ip_address = Some ''127.0.0.1'', user_agent = ''curl''\<rparr>]"
    by (simp add: db0_def click_a_def next_id_def clk_noon_def noon_def req_get_def
        sqlite_datetime_def pad2_def pad4_def digit_char_def)
  show ?thesis using n 1 2 3 by simp
qed

section \<open>Creating a link with a code already in use\<close>

text \<open>
  C5. When a link with the code already exists, the insert of a new link with that code
  fails with the uniqueness error; \<^verbatim>\<open>index\<close>, whose generated code is that code, does
  not answer but passes the error to its caller, and the store it leaves is the store it
  found.
\<close>

theorem duplicate_code_rejected:
  "(l \<in> set (links d) \<and> short_code l = code \<longrightarrow>
      links_insert aff d utc url code expiry = Inl IntegrityError)
   \<and> (l \<in> set (links d) \<and> short_code l = generate_short_code rnd
        \<and> request_method req = ''POST'' \<and> map_of (form req) ''url'' = Some url
        \<and> map_of (form req) ''expiry_date'' = Some expiry \<longrightarrow>
      index aff d clk rnd req = (Inl IntegrityError, d))"
proof (intro conjI impI)
  assume "l \<in> set (links d) \<and> short_code l = code"
  then show "links_insert aff d utc url code expiry = Inl IntegrityError"
    by (auto simp: links_insert_def)
next
  assume a: "l \<in> set (links d) \<and> short_code l = generate_short_code rnd
        \<and> request_method req = ''POST'' \<and> map_of (form req) ''url'' = Some url
        \<and> map_of (form req) ''expiry_date'' = Some expiry"
  then have "links_insert aff d (utc_now clk) url (generate_short_code rnd) expiry =
      Inl IntegrityError"
    by (auto simp: links_insert_def)
  then show "index aff d clk rnd req = (Inl IntegrityError, d)"
    using a by (simp add: index_def Let_def)
qed

theorem duplicate_code_rejected_witness:
  "link_b \<in> set (links db0) \<and> short_code link_b = generate_short_code (\<lambda>k. 7 * k)
   \<and> request_method req_post = ''POST'' \<and> map_of (form req_post) ''url'' = Some ''https://example.com/x''
   \<and> map_of (form req_post) ''expiry_date'' = Some []
   \<and> links_insert SText db0 noon ''https://example.com/x'' (generate_short_code (\<lambda>k. 7 * k)) []
       = Inl IntegrityError
   \<and> index SText db0 clk_noon (\<lambda>k. 7 * k) req_post = (Inl IntegrityError, db0)"
proof -
  have g: "generate_short_code (\<lambda>k. 7 * k) = ''ahovCJ''"
    by (simp add: generate_short_code_def random_choice_def characters_def ascii_letters_def
        ascii_lowercase_def ascii_uppercase_def digits_def upt_rec)
  have h: "link_b \<in> set (links db0) \<and> short_code link_b = generate_short_code (\<lambda>k. 7 * k)
     \<and> request_method req_post = ''POST'' \<and> map_of (form req_post) ''url'' = Some ''https://example.com/x''
     \<and> map_of (form req_post) ''expiry_date'' = Some []"
    by (simp add: g) (simp add: db0_def link_b_def req_post_def)
  note t = duplicate_code_rejected [of link_b db0 "generate_short_code (\<lambda>k. 7 * k)" SText noon
      "''https://example.com/x''" "[]" "\<lambda>k. 7 * k" req_post clk_noon]
  have 1: "links_insert SText db0 noon ''https://example.com/x'' (generate_short_code (\<lambda>k. 7 * k)) []
       = Inl IntegrityError"
    using t h by blast
  have 2: "index SText db0 clk_noon (\<lambda>k. 7 * k) req_post = (Inl IntegrityError, db0)"
    using t h by blast
  show ?thesis using h 1 2 by blast
qed

section \<open>Order of texts\<close>

lemma text_lt_Nil: "text_lt [] t = (t \<noteq> [])"
  by (cases t) simp_all

lemma text_lt_irrefl: "\<not> text_lt a a"
  by (induction a) simp_all

lemma text_lt_append_same_length:
  "length a = length b \<Longrightarrow>
   text_lt (a @ x) (b @ y) = (text_lt a b \<or> (a = b \<and> text_lt x y))"
proof (induction a b rule: list_induct2)
  case Nil
  then show ?case by simp
next
  case (Cons c cs e es)
  then show ?case by auto
qed

lemma length_pad: "length (pad2 n) = 2" "length (pad4 n) = 4"
  by (simp_all add: pad2_def pad4_def)

lemma length_date_text: "length (date_text t) = 10"
  by (simp add: date_text_def length_pad)

lemma sqlite_datetime_split:
  "sqlite_datetime t =
     date_text t @ CHR '' '' # pad2 (hour t) @ '':'' @ pad2 (minute t) @ '':'' @ pad2 (second t)"
  by (simp add: sqlite_datetime_def date_text_def)

lemma iso_minute_split:
  "iso_minute t = date_text t @ CHR ''T'' # pad2 (hour t) @ '':'' @ pad2 (minute t)"
  by (simp add: iso_minute_def date_text_def)

lemma take_sqlite_datetime: "take 10 (sqlite_datetime t) = date_text t"
  by (simp add: sqlite_datetime_split length_date_text)

lemma text_lt_T_space:
  assumes "length dt = 10"
  shows "text_lt (dt @ CHR ''T'' # tm) (sqlite_datetime utc) = text_lt dt (date_text utc)"
proof -
  have "length dt = length (date_text utc)" using assms by (simp add: length_date_text)
  then show ?thesis
    unfolding sqlite_datetime_split by (simp add: text_lt_append_same_length)
qed

lemma kept_by_sweep:
  "l \<in> set (links (delete_expired_links d utc)) \<longleftrightarrow>
   l \<in> set (links d) \<and> \<not> sql_lt_text (expiry_date l) (sqlite_datetime utc)"
  by (simp add: delete_expired_links_def)

section \<open>The sweep against the stored expiry text\<close>

text \<open>
  C9. The sweep compares the stored expiry text with the text of \<^verbatim>\<open>datetime('now')\<close>
  byte by byte. For an expiry text with \<^verbatim>\<open>T\<close> after a date part of ten characters,
  the sweep removes the link exactly when the date part is below the date part of now in
  that order. So a link whose expiry date is the calendar date of now stays in the table
  whatever its time of day, also one that has passed.
\<close>

theorem sweep_compares_text:
  "(l \<in> set (links d) \<and> expiry_date l = SText (dt @ CHR ''T'' # tm) \<and> length dt = 10 \<longrightarrow>
      (l \<notin> set (links (delete_expired_links d utc)) \<longleftrightarrow>
       text_lt dt (take 10 (sqlite_datetime utc))))
   \<and> (l \<in> set (links d) \<and> expiry_date l = SText (iso_minute t)
        \<and> year t = year utc \<and> month t = month utc \<and> day t = day utc \<longrightarrow>
      l \<in> set (links (delete_expired_links d utc)))"
proof (intro conjI impI)
  assume a: "l \<in> set (links d) \<and> expiry_date l = SText (dt @ CHR ''T'' # tm) \<and> length dt = 10"
  then have "sql_lt_text (expiry_date l) (sqlite_datetime utc) = text_lt dt (date_text utc)"
    by (simp add: text_lt_T_space)
  then show "l \<notin> set (links (delete_expired_links d utc)) \<longleftrightarrow>
       text_lt dt (take 10 (sqlite_datetime utc))"
    using a by (simp add: kept_by_sweep take_sqlite_datetime)
next
  assume a: "l \<in> set (links d) \<and> expiry_date l = SText (iso_minute t)
        \<and> year t = year utc \<and> month t = month utc \<and> day t = day utc"
  then have e: "date_text t = date_text utc" by (simp add: date_text_def)
  have "sql_lt_text (expiry_date l) (sqlite_datetime utc) = text_lt (date_text t) (date_text utc)"
    using a by (simp add: iso_minute_split text_lt_T_space length_date_text)
  then have "\<not> sql_lt_text (expiry_date l) (sqlite_datetime utc)"
    by (simp add: e text_lt_irrefl)
  then show "l \<in> set (links (delete_expired_links d utc))"
    using a by (simp add: kept_by_sweep)
qed

theorem sweep_compares_text_witness:
  "link_c \<in> set (links db0) \<and> expiry_date link_c = SText (''2023-12-31'' @ CHR ''T'' # ''23:59'')
   \<and> length ''2023-12-31'' = 10
   \<and> text_lt ''2023-12-31'' (take 10 (sqlite_datetime noon))
   \<and> link_c \<notin> set (links (delete_expired_links db0 noon))
   \<and> link_a \<in> set (links db0)
   \<and> expiry_date link_a =
        SText (iso_minute \<lparr>year = 2024, month = 1, day = 1, hour = 10, minute = 0, second = 0,
                           microsecond = 0\<rparr>)
   \<and> is_expired (expiry_date link_a) noon = Inr True
   \<and> link_a \<in> set (links (delete_expired_links db0 noon))"
proof -
  let ?t = "\<lparr>year = 2024, month = 1, day = 1, hour = 10, minute = 0, second = 0,
             microsecond = 0\<rparr>"
  have c: "link_c \<in> set (links db0) \<and> expiry_date link_c = SText (''2023-12-31'' @ CHR ''T'' # ''23:59'')
     \<and> length ''2023-12-31'' = 10"
    by (simp add: db0_def link_c_def)
  have n: "take 10 (sqlite_datetime noon) = ''2024-01-01''"
    by (simp add: sqlite_datetime_def noon_def pad2_def pad4_def digit_char_def)
  have lt: "text_lt ''2023-12-31'' (take 10 (sqlite_datetime noon))"
    by (simp add: n)
  have 1: "link_c \<notin> set (links (delete_expired_links db0 noon))"
    using sweep_compares_text [of link_c db0 "''2023-12-31''" "''23:59''" noon] c lt by blast
  have a: "link_a \<in> set (links db0) \<and> expiry_date link_a = SText (iso_minute ?t)
     \<and> year ?t = year noon \<and> month ?t = month noon \<and> day ?t = day noon"
    by (simp add: db0_def link_a_def noon_def iso_minute_def pad2_def pad4_def digit_char_def)
  have 2: "link_a \<in> set (links (delete_expired_links db0 noon))"
    using sweep_compares_text [of link_a db0 _ _ noon ?t] a by blast
  have e: "is_expired (expiry_date link_a) noon = Inr True"
    using example_expiry(1) by (simp add: clk_noon_def)
  show ?thesis using c lt 1 a 2 e by blast
qed

section \<open>The sweep against the expiry evaluation\<close>

text \<open>
  C3, at a store the program can reach. At noon of 1 January 2024 \<open>link_a\<close> expired two
  hours ago (the redirect handler's evaluation says so) and the sweep leaves it in the
  table; \<open>link_b\<close>, created with the expiry field left blank and never expired for the
  redirect handler, is removed by the sweep.
\<close>

theorem sweep_misses_expired_and_removes_unexpiring:
  "link_a \<in> set (links db0) \<and> is_expired (expiry_date link_a) noon = Inr True
   \<and> link_a \<in> set (links (delete_expired_links db0 noon))
   \<and> link_b \<in> set (links db0) \<and> is_expired (expiry_date link_b) noon = Inr False
   \<and> link_b \<notin> set (links (delete_expired_links db0 noon))
   \<and> links (delete_expired_links db0 noon) = [link_a]"
proof -
  have n: "sqlite_datetime noon = ''2024-01-01 12:00:00''"
    by (simp add: sqlite_datetime_def noon_def pad2_def pad4_def digit_char_def)
  have l: "links (delete_expired_links db0 noon) = [link_a]"
    by (simp add: delete_expired_links_def n db0_def) (simp add: link_a_def link_b_def link_c_def)
  have ne: "link_b \<noteq> link_a" by (simp add: link_a_def link_b_def)
  have m: "link_a \<in> set (links db0) \<and> link_b \<in> set (links db0)" by (simp add: db0_def)
  show ?thesis
    using l ne m example_expiry by (simp add: clk_noon_def)
qed

section \<open>A blank expiry\<close>

text \<open>
  C10 as stated fails for a link with a blank expiry when its \<^verbatim>\<open>original_url\<close> holds a
  carriage return: \<open>link_cr\<close>, created through \<^verbatim>\<open>POST /\<close> with the expiry field left
  blank, is not answered with a redirect: line 155 raises \<^verbatim>\<open>ValueError\<close>.
\<close>

theorem blank_expiry_redirect_fails_on_carriage_return:
  "distinct (map short_code (links db1)) \<and> link_cr \<in> set (links db1)
   \<and> expiry_date link_cr = SText []
   \<and> fst (redirect_to_original db1 clk_noon req_get (short_code link_cr)) = Inl ValueError
   \<and> fst (redirect_to_original db1 clk_noon req_get (short_code link_cr)) \<noteq>
       Inr (Redirect (original_url link_cr))"
proof -
  have "fst (redirect_to_original db1 clk_noon req_get (short_code link_cr)) =
      redirect (original_url link_cr)"
    using redirect_found [OF example_db1(1,3,5), of req_get] by simp
  also have "\<dots> = Inl ValueError"
    using example_db1(7) by (simp add: redirect_newline)
  finally have r: "fst (redirect_to_original db1 clk_noon req_get (short_code link_cr)) =
      Inl ValueError" .
  have e: "expiry_date link_cr = SText []" by (simp add: link_cr_def)
  show ?thesis using example_db1(1,3) e r by simp
qed

text \<open>
  C10, amended. A link whose stored expiry is the empty text is never expired for the
  redirect handler: in a store with unique codes a request for its code is never
  answered with the expired page (410); it is answered with a redirect to its
  \<^verbatim>\<open>original_url\<close> when the url holds no carriage return and no line feed, and with
  \<^verbatim>\<open>ValueError\<close> raised when it holds one. The empty text is not NULL. It is below every
  non-empty text in SQLite's order, so below every text of \<^verbatim>\<open>datetime('now')\<close>, and the
  sweep removes the link. The empty text is what \<^verbatim>\<open>index\<close> stores when the form's
  expiry field is blank (SQLite keeps an empty text as it is).
\<close>

theorem empty_expiry_text:
  "(distinct (map short_code (links d)) \<and> l \<in> set (links d) \<and> expiry_date l = SText [] \<longrightarrow>
      is_expired (expiry_date l) now = Inr False
      \<and> fst (redirect_to_original d clk req (short_code l)) \<noteq>
          Inr (Template ''error.html'' [(''message'', ''This URL has expired'')] 410)
      \<and> (CHR 0x0D \<notin> set (original_url l) \<and> CHR 0x0A \<notin> set (original_url l) \<longrightarrow>
          fst (redirect_to_original d clk req (short_code l)) = Inr (Redirect (original_url l)))
      \<and> (CHR 0x0D \<in> set (original_url l) \<or> CHR 0x0A \<in> set (original_url l) \<longrightarrow>
          fst (redirect_to_original d clk req (short_code l)) = Inl ValueError))
   \<and> SText [] \<noteq> SNull
   \<and> (t \<noteq> [] \<longrightarrow> text_lt [] t)
   \<and> sql_lt_text (SText []) (sqlite_datetime utc)
   \<and> (l \<in> set (links d) \<and> expiry_date l = SText [] \<longrightarrow>
        l \<notin> set (links (delete_expired_links d utc)))
   \<and> (aff [] = SText [] \<and> request_method post = ''POST'' \<and> map_of (form post) ''url'' = Some url
        \<and> map_of (form post) ''expiry_date'' = Some []
        \<and> generate_short_code rnd \<notin> set (map short_code (links d)) \<longrightarrow>
        (\<exists>i c. links (snd (index aff d clk rnd post)) =
           links d @ [\<lparr>link_id = i, original_url = url, short_code = generate_short_code rnd,
                       expiry_date = SText [], created_at = c\<rparr>]))"
proof (intro conjI impI)
  assume a: "distinct (map short_code (links d)) \<and> l \<in> set (links d) \<and> expiry_date l = SText []"
  then show e: "is_expired (expiry_date l) now = Inr False" by (simp add: is_expired_def)
  have "is_expired (expiry_date l) (local_now clk) = Inr False"
    using a by (simp add: is_expired_def)
  then have r: "fst (redirect_to_original d clk req (short_code l)) = redirect (original_url l)"
    using redirect_found [of d l clk False req] a by simp
  show "fst (redirect_to_original d clk req (short_code l)) \<noteq>
          Inr (Template ''error.html'' [(''message'', ''This URL has expired'')] 410)"
    unfolding r by (simp add: redirect_def)
  {
    assume "CHR 0x0D \<notin> set (original_url l) \<and> CHR 0x0A \<notin> set (original_url l)"
    then show "fst (redirect_to_original d clk req (short_code l)) =
        Inr (Redirect (original_url l))"
      unfolding r by (simp add: redirect_plain)
  }
  {
    assume "CHR 0x0D \<in> set (original_url l) \<or> CHR 0x0A \<in> set (original_url l)"
    then show "fst (redirect_to_original d clk req (short_code l)) = Inl ValueError"
      unfolding r by (rule redirect_newline)
  }
next
  show "SText [] \<noteq> SNull" by simp
next
  assume "t \<noteq> []"
  then show "text_lt [] t" by (simp add: text_lt_Nil)
next
  show s: "sql_lt_text (SText []) (sqlite_datetime utc)"
    by (simp add: text_lt_Nil sqlite_datetime_def pad4_def)
  assume "l \<in> set (links d) \<and> expiry_date l = SText []"
  then show "l \<notin> set (links (delete_expired_links d utc))"
    using s by (simp add: kept_by_sweep)
next
  assume a: "aff [] = SText [] \<and> request_method post = ''POST'' \<and> map_of (form post) ''url'' = Some url
        \<and> map_of (form post) ''expiry_date'' = Some []
        \<and> generate_short_code rnd \<notin> set (map short_code (links d))"
  have "\<not> (\<exists>x \<in> set (links d). short_code x = generate_short_code rnd)"
  proof
    assume "\<exists>x \<in> set (links d). short_code x = generate_short_code rnd"
    then obtain x where "x \<in> set (links d)" "short_code x = generate_short_code rnd"
      by blast
    then have "generate_short_code rnd \<in> set (map short_code (links d))" by force
    with a show False by blast
  qed
  with a show "\<exists>i c. links (snd (index aff d clk rnd post)) =
           links d @ [\<lparr>link_id = i, original_url = url, short_code = generate_short_code rnd,
                       expiry_date = SText [], created_at = c\<rparr>]"
    by (simp add: index_def links_insert_def Let_def)
qed

theorem empty_expiry_text_witness:
  "distinct (map short_code (links db0)) \<and> link_b \<in> set (links db0)
   \<and> expiry_date link_b = SText []
   \<and> CHR 0x0D \<notin> set (original_url link_b) \<and> CHR 0x0A \<notin> set (original_url link_b)
   \<and> fst (redirect_to_original db0 clk_noon req_get (short_code link_b)) =
       Inr (Redirect (original_url link_b))
   \<and> distinct (map short_code (links db1)) \<and> link_cr \<in> set (links db1)
   \<and> expiry_date link_cr = SText [] \<and> CHR 0x0D \<in> set (original_url link_cr)
   \<and> fst (redirect_to_original db1 clk_noon req_get (short_code link_cr)) = Inl ValueError
   \<and> ''2024-01-01 12:00:00'' \<noteq> [] \<and> text_lt [] ''2024-01-01 12:00:00''
   \<and> link_b \<notin> set (links (delete_expired_links db0 noon))
   \<and> SText [] = SText [] \<and> request_method req_post = ''POST''
   \<and> map_of (form req_post) ''url'' = Some ''https://example.com/x''
   \<and> map_of (form req_post) ''expiry_date'' = Some []
   \<and> generate_short_code (\<lambda>k. k) \<notin> set (map short_code (links db0))
   \<and> (\<exists>i c. links (snd (index SText db0 clk_noon (\<lambda>k. k) req_post)) =
         links db0 @ [\<lparr>link_id = i, original_url = ''https://example.com/x'',
                       short_code = generate_short_code (\<lambda>k. k),
                       expiry_date = SText [], created_at = c\<rparr>])"
proof -
  note t = empty_expiry_text [where d = db0 and l = link_b and now = noon and clk = clk_noon
      and req = req_get and t = "''2024-01-01 12:00:00''" and utc = noon and aff = SText
      and post = req_post and url = "''https://example.com/x''" and rnd = "\<lambda>k. k"]
  note t1 = empty_expiry_text [where d = db1 and l = link_cr and now = noon and clk = clk_noon
      and req = req_get]
  have b: "distinct (map short_code (links db0)) \<and> link_b \<in> set (links db0)
     \<and> expiry_date link_b = SText []"
    using example_codes_distinct by (simp add: db0_def) (simp add: link_b_def)
  have u: "CHR 0x0D \<notin> set (original_url link_b) \<and> CHR 0x0A \<notin> set (original_url link_b)"
    using example_plain_url by simp
  have c: "distinct (map short_code (links db1)) \<and> link_cr \<in> set (links db1)
     \<and> expiry_date link_cr = SText []"
    using example_db1(1,3) by (simp add: link_cr_def)
  have cr: "CHR 0x0D \<in> set (original_url link_cr)" by (rule example_db1(7))
  have g: "generate_short_code (\<lambda>k. k) = ''abcdef''"
    by (simp add: generate_short_code_def random_choice_def characters_def ascii_letters_def
        ascii_lowercase_def ascii_uppercase_def digits_def upt_rec)
  have p: "SText [] = SText [] \<and> request_method req_post = ''POST''
     \<and> map_of (form req_post) ''url'' = Some ''https://example.com/x''
     \<and> map_of (form req_post) ''expiry_date'' = Some []
     \<and> generate_short_code (\<lambda>k. k) \<notin> set (map short_code (links db0))"
    by (simp add: g req_post_def db0_def link_a_def link_b_def link_c_def)
  have n: "''2024-01-01 12:00:00'' \<noteq> []" by simp
  have 1: "fst (redirect_to_original db0 clk_noon req_get (short_code link_b)) =
       Inr (Redirect (original_url link_b))"
    using t b u by blast
  have 5: "fst (redirect_to_original db1 clk_noon req_get (short_code link_cr)) = Inl ValueError"
    using t1 c cr by blast
  have 2: "text_lt [] ''2024-01-01 12:00:00''" using t n by blast
  have 3: "link_b \<notin> set (links (delete_expired_links db0 noon))" using t b by blast
  have 4: "\<exists>i c. links (snd (index SText db0 clk_noon (\<lambda>k. k) req_post)) =
         links db0 @ [\<lparr>link_id = i, original_url = ''https://example.com/x'',
                       short_code = generate_short_code (\<lambda>k. k),
                       expiry_date = SText [], created_at = c\<rparr>]"
    using t p by blast
  show ?thesis using b u c cr n 1 2 3 p 4 5 by blast
qed

section \<open>Ordering, joining and grouping\<close>

lemma text_lt_trans: "text_lt a b \<Longrightarrow> text_lt b c \<Longrightarrow> text_lt a c"
proof (induction a b arbitrary: c rule: text_lt.induct)
  case 1
  then show ?case by simp
next
  case (2 y ys)
  then show ?case by (cases c) simp_all
next
  case (3 x xs)
  then show ?case by simp
next
  case (4 x xs y ys)
  then show ?case by (cases c) auto
qed

lemma text_lt_connex: "\<not> text_lt a b \<Longrightarrow> a \<noteq> b \<Longrightarrow> text_lt b a"
proof (induction a b rule: text_lt.induct)
  case (4 x xs y ys)
  then show ?case by (auto simp: not_less le_less)
qed simp_all

lemma text_ge_trans:
  assumes "\<not> text_lt a b" "\<not> text_lt b c"
  shows "\<not> text_lt a c"
proof
  assume ac: "text_lt a c"
  show False
  proof (cases "a = b")
    case True
    with ac assms(2) show False by simp
  next
    case False
    with assms(1) have "text_lt b a" by (rule text_lt_connex)
    then have "text_lt b c" using ac by (rule text_lt_trans)
    with assms(2) show False by simp
  qed
qed

lemma text_lt_asym: "text_lt a b \<Longrightarrow> \<not> text_lt b a"
  using text_lt_trans text_lt_irrefl by blast

lemma mset_insert_desc: "mset (insert_desc r xs) = add_mset r (mset xs)"
  by (induction xs) simp_all

lemma set_insert_desc: "set (insert_desc r xs) = insert r (set xs)"
  by (induction xs) auto

lemma sorted_insert_desc:
  "sorted_wrt (\<lambda>a b. \<not> text_lt (created_at (fst a)) (created_at (fst b))) xs \<Longrightarrow>
   sorted_wrt (\<lambda>a b. \<not> text_lt (created_at (fst a)) (created_at (fst b))) (insert_desc r xs)"
proof (induction xs)
  case Nil
  then show ?case by simp
next
  case (Cons x xs)
  show ?case
  proof (cases "text_lt (created_at (fst r)) (created_at (fst x))")
    case True
    then have "\<not> text_lt (created_at (fst x)) (created_at (fst r))" by (rule text_lt_asym)
    with True Cons show ?thesis by (auto simp: set_insert_desc)
  next
    case False
    have "\<not> text_lt (created_at (fst r)) (created_at (fst y))" if "y \<in> set xs" for y
    proof -
      have "\<not> text_lt (created_at (fst x)) (created_at (fst y))"
        using Cons.prems that by simp
      with False show ?thesis by (rule text_ge_trans)
    qed
    with False Cons.prems show ?thesis by auto
  qed
qed

lemma mset_order_by: "mset (order_by_created_at_desc rows) = mset rows"
  unfolding order_by_created_at_desc_def by (induction rows) (simp_all add: mset_insert_desc)

lemma sorted_order_by:
  "sorted_wrt (\<lambda>a b. \<not> text_lt (created_at (fst a)) (created_at (fst b)))
     (order_by_created_at_desc rows)"
  unfolding order_by_created_at_desc_def by (induction rows) (simp_all add: sorted_insert_desc)

lemma join_rows_of_link:
  "\<exists>r rs. (case filter (\<lambda>c. short_code l = click_short_code c) cs of
             [] \<Rightarrow> [(l, None)] | ms \<Rightarrow> map (\<lambda>c. (l, Some c)) ms) = r # rs
     \<and> fst r = l \<and> (\<forall>x \<in> set rs. fst x = l)
     \<and> length (filter (\<lambda>x. snd x \<noteq> None) (r # rs)) =
         length (filter (\<lambda>c. click_short_code c = short_code l) cs)"
proof (cases "filter (\<lambda>c. short_code l = click_short_code c) cs")
  case Nil
  then have "filter (\<lambda>c. click_short_code c = short_code l) cs = []"
    by (auto simp: filter_empty_conv)
  with Nil show ?thesis by simp
next
  case (Cons m ms)
  have e: "(\<lambda>c. click_short_code c = short_code l) = (\<lambda>c. short_code l = click_short_code c)"
    by auto
  have "length (filter (\<lambda>x. snd x \<noteq> None) (map (\<lambda>c. (l, Some c)) (m # ms))) = length (m # ms)"
    by (simp add: filter_map comp_def)
  with Cons show ?thesis by (auto simp: e)
qed

lemma group_by_id_left_join:
  "distinct (map link_id ls) \<Longrightarrow>
   group_by_id (left_join ls cs) =
     map (\<lambda>l. (l, length (filter (\<lambda>c. click_short_code c = short_code l) cs))) ls"
proof (induction ls)
  case Nil
  then show ?case by (simp add: left_join_def)
next
  case (Cons l ls)
  obtain r rs where rows:
    "(case filter (\<lambda>c. short_code l = click_short_code c) cs of
        [] \<Rightarrow> [(l, None)] | ms \<Rightarrow> map (\<lambda>c. (l, Some c)) ms) = r # rs"
    "fst r = l" "\<forall>x \<in> set rs. fst x = l"
    "length (filter (\<lambda>x. snd x \<noteq> None) (r # rs)) =
       length (filter (\<lambda>c. click_short_code c = short_code l) cs)"
    using join_rows_of_link [of l cs] by blast
  have j: "left_join (l # ls) cs = r # rs @ left_join ls cs"
    using rows(1) by (simp add: left_join_def)
  have other: "\<forall>x \<in> set (left_join ls cs). link_id (fst x) \<noteq> link_id l"
  proof
    fix x assume "x \<in> set (left_join ls cs)"
    then obtain k where k: "k \<in> set ls"
      "x \<in> set (case filter (\<lambda>c. short_code k = click_short_code c) cs of
                   [] \<Rightarrow> [(k, None)] | ms \<Rightarrow> map (\<lambda>c. (k, Some c)) ms)"
      by (auto simp: left_join_def)
    have "fst x = k" using k(2) join_rows_of_link [of k cs] by auto
    with k(1) have "fst x \<in> set ls" by simp
    then have "link_id (fst x) \<in> set (map link_id ls)" by simp
    moreover have "link_id l \<notin> set (map link_id ls)" using Cons.prems by simp
    ultimately show "link_id (fst x) \<noteq> link_id l" by metis
  qed
  have f1: "filter (\<lambda>x. link_id (fst x) \<noteq> link_id (fst r)) (rs @ left_join ls cs) =
      left_join ls cs"
    using rows(2,3) other by (simp add: filter_id_conv filter_empty_conv)
  have f2: "filter (\<lambda>x. link_id (fst x) = link_id (fst r) \<and> snd x \<noteq> None)
        (r # rs @ left_join ls cs) = filter (\<lambda>x. snd x \<noteq> None) (r # rs)"
  proof -
    have a: "filter (\<lambda>x. link_id (fst x) = link_id (fst r) \<and> snd x \<noteq> None) (left_join ls cs) = []"
      using rows(2) other by (simp add: filter_empty_conv)
    have b: "filter (\<lambda>x. link_id (fst x) = link_id (fst r) \<and> snd x \<noteq> None) (r # rs) =
        filter (\<lambda>x. snd x \<noteq> None) (r # rs)"
      using rows(2,3) by (intro filter_cong) auto
    have "filter (\<lambda>x. link_id (fst x) = link_id (fst r) \<and> snd x \<noteq> None)
        ((r # rs) @ left_join ls cs) = filter (\<lambda>x. snd x \<noteq> None) (r # rs)"
      unfolding filter_append a b by simp
    then show ?thesis by simp
  qed
  have "group_by_id (left_join (l # ls) cs) =
      (fst r, length (filter (\<lambda>x. snd x \<noteq> None) (r # rs))) # group_by_id (left_join ls cs)"
    unfolding j group_by_id.simps f1 f2 ..
  also have "\<dots> = (l, length (filter (\<lambda>c. click_short_code c = short_code l) cs))
      # map (\<lambda>l. (l, length (filter (\<lambda>c. click_short_code c = short_code l) cs))) ls"
    using rows(2,4) Cons by simp
  finally show ?case by simp
qed

lemma digit_char_inj: "digit_char a = digit_char b \<longleftrightarrow> a mod 10 = b mod 10"
  by (simp add: digit_char_eq of_char_digit_char)

lemma text_lt_digits:
  assumes "qa < 10" "ra < 10" "qb < 10" "rb < 10"
  shows "text_lt [digit_char qa, digit_char ra] [digit_char qb, digit_char rb] =
           (10 * qa + ra < 10 * qb + rb)"
    and "([digit_char qa, digit_char ra] = [digit_char qb, digit_char rb]) =
           (10 * qa + ra = 10 * qb + rb)"
proof -
  have "text_lt [digit_char qa, digit_char ra] [digit_char qb, digit_char rb] =
      (qa < qb \<or> (qa = qb \<and> ra < rb))"
    using assms by (simp add: of_char_digit_char digit_char_inj)
  also have "\<dots> = (10 * qa + ra < 10 * qb + rb)" using assms by linarith
  finally show "text_lt [digit_char qa, digit_char ra] [digit_char qb, digit_char rb] =
           (10 * qa + ra < 10 * qb + rb)" .
  have "([digit_char qa, digit_char ra] = [digit_char qb, digit_char rb]) = (qa = qb \<and> ra = rb)"
    using assms by (simp add: digit_char_inj)
  also have "\<dots> = (10 * qa + ra = 10 * qb + rb)" using assms by arith
  finally show "([digit_char qa, digit_char ra] = [digit_char qb, digit_char rb]) =
           (10 * qa + ra = 10 * qb + rb)" .
qed

lemma pad2_order:
  assumes "a < 100" "b < 100"
  shows "text_lt (pad2 a) (pad2 b) = (a < b)" and "(pad2 a = pad2 b) = (a = b)"
proof -
  obtain qa ra where a: "a = 10 * qa + ra" "ra < 10" by (rule two_digit_cases)
  obtain qb rb where b: "b = 10 * qb + rb" "rb < 10" by (rule two_digit_cases)
  have q: "qa < 10" "qb < 10" using assms a b by linarith+
  have pa: "pad2 (10 * qa + ra) = [digit_char qa, digit_char ra]" using a(2) by (rule pad2_split)
  have pb: "pad2 (10 * qb + rb) = [digit_char qb, digit_char rb]" using b(2) by (rule pad2_split)
  show "text_lt (pad2 a) (pad2 b) = (a < b)"
    unfolding a(1) b(1) pa pb using q(1) a(2) q(2) b(2) by (rule text_lt_digits(1))
  show "(pad2 a = pad2 b) = (a = b)"
    unfolding a(1) b(1) pa pb using q(1) a(2) q(2) b(2) by (rule text_lt_digits(2))
qed

lemma pad4_as_pad2: "pad4 n = pad2 (n div 100) @ pad2 (n mod 100)"
proof -
  have 1: "n div 100 div 10 = n div 1000" using div_mult2_eq [of n 100 10] by simp
  have "n mod 100 = 10 * (n div 10 mod 10) + n mod 10"
    using mod_mult2_eq [of n 10 10] by simp
  then have 2: "n mod 100 div 10 = n div 10 mod 10" by simp
  have 3: "n mod 100 mod 10 = n mod 10" by (simp add: mod_mod_cancel)
  have "digit_char (n mod 100 div 10) = digit_char (n div 10)"
    unfolding digit_char_inj 2 by simp
  moreover have "digit_char (n mod 100) = digit_char n"
    unfolding digit_char_inj 3 ..
  ultimately show ?thesis by (simp add: pad4_def pad2_def 1)
qed

lemma pad4_order:
  assumes "a \<le> 9999" "b \<le> 9999"
  shows "text_lt (pad4 a) (pad4 b) = (a < b)" and "(pad4 a = pad4 b) = (a = b)"
proof -
  have da: "a div 100 < 100" "a mod 100 < 100" using assms(1) by simp_all
  have db: "b div 100 < 100" "b mod 100 < 100" using assms(2) by simp_all
  have ea: "a = 100 * (a div 100) + a mod 100" by simp
  have eb: "b = 100 * (b div 100) + b mod 100" by simp
  have "text_lt (pad4 a) (pad4 b) =
      (a div 100 < b div 100 \<or> (a div 100 = b div 100 \<and> a mod 100 < b mod 100))"
    unfolding pad4_as_pad2
    by (simp add: text_lt_append_same_length length_pad pad2_order da db)
  also have "\<dots> = (a < b)" using ea eb da(2) db(2) by linarith
  finally show "text_lt (pad4 a) (pad4 b) = (a < b)" .
  have "(pad4 a = pad4 b) = (a div 100 = b div 100 \<and> a mod 100 = b mod 100)"
    unfolding pad4_as_pad2 by (simp add: length_pad pad2_order da db)
  also have "\<dots> = (a = b)" using ea eb by metis
  finally show "(pad4 a = pad4 b) = (a = b)" .
qed

lemma text_lt_same_head: "text_lt (c # x) (c # y) = text_lt x y"
  by simp

lemma text_lt_sqlite_datetime:
  assumes "valid_datetime a" "valid_datetime b"
  shows "text_lt (sqlite_datetime a) (sqlite_datetime b) =
           lex_less [year a, month a, day a, hour a, minute a, second a]
                    [year b, month b, day b, hour b, minute b, second b]"
proof -
  have day: "day t < 100" if "valid_datetime t" for t
    using that by (simp add: valid_datetime_def valid_date_def days_in_month_def split: if_splits)
  have ba: "year a \<le> 9999" "month a < 100" "day a < 100" "hour a < 100" "minute a < 100"
      "second a < 100"
    using assms(1) day [of a] by (simp_all add: valid_datetime_def valid_date_def)
  have bb: "year b \<le> 9999" "month b < 100" "day b < 100" "hour b < 100" "minute b < 100"
      "second b < 100"
    using assms(2) day [of b] by (simp_all add: valid_datetime_def valid_date_def)
  show ?thesis
    unfolding sqlite_datetime_def
    by (simp add: text_lt_append_same_length length_pad pad2_order pad4_order ba bb
        del: text_lt.simps add: text_lt_same_head)
qed

lemma filter_absent_key: "k \<notin> set (map f xs) \<Longrightarrow> filter (\<lambda>c. f c = k) xs = []"
  by (induction xs) auto

lemma all_links_eq:
  assumes "distinct (map link_id (links d))"
  shows "all_links d =
    order_by_created_at_desc
      (map (\<lambda>l. (l, length (filter (\<lambda>c. click_short_code c = short_code l) (clicks d))))
        (links d))"
  unfolding all_links_def using assms by (simp add: group_by_id_left_join)

section \<open>The listing\<close>

text \<open>
  C7. In a store whose link ids are distinct (\<^verbatim>\<open>id\<close> is the primary key),
  \<^verbatim>\<open>all_links\<close> returns exactly one entry for every link of the table. The entries are
  in descending order of \<^verbatim>\<open>created_at\<close>: no entry's \<^verbatim>\<open>created_at\<close> text is below that
  of a later entry, and where the two texts are timestamps written by SQLite the earlier
  entry was not created before the later one. The count of every entry is the number of
  click rows whose \<^verbatim>\<open>short_code\<close> is the link's code, which is 0 for a link whose code
  no click row has.
\<close>

theorem all_links_counts:
  assumes "distinct (map link_id (links d))"
  shows
    "mset (map fst (all_links d)) = mset (links d)
     \<and> sorted_wrt (\<lambda>a b. \<not> text_lt (created_at (fst a)) (created_at (fst b))) (all_links d)
     \<and> (i < j \<and> j < length (all_links d)
          \<and> created_at (fst (all_links d ! i)) = sqlite_datetime ta
          \<and> created_at (fst (all_links d ! j)) = sqlite_datetime tb
          \<and> valid_datetime ta \<and> valid_datetime tb \<longrightarrow>
        \<not> lex_less [year ta, month ta, day ta, hour ta, minute ta, second ta]
                     [year tb, month tb, day tb, hour tb, minute tb, second tb])
     \<and> (r \<in> set (all_links d) \<longrightarrow>
        snd r = length (filter (\<lambda>c. click_short_code c = short_code (fst r)) (clicks d)))
     \<and> (r \<in> set (all_links d)
          \<and> short_code (fst r) \<notin> set (map click_short_code (clicks d)) \<longrightarrow> snd r = 0)"
proof -
  let ?g = "\<lambda>l. (l, length (filter (\<lambda>c. click_short_code c = short_code l) (clicks d)))"
  note eq = all_links_eq [OF assms]
  have m: "mset (all_links d) = mset (map ?g (links d))"
    unfolding eq by (rule mset_order_by)
  have "mset (map fst (all_links d)) = image_mset fst (mset (all_links d))" by simp
  also have "\<dots> = image_mset fst (mset (map ?g (links d)))" by (simp only: m)
  also have "\<dots> = mset (links d)" by (simp add: image_mset.compositionality comp_def)
  finally have 1: "mset (map fst (all_links d)) = mset (links d)" .
  have 2: "sorted_wrt (\<lambda>a b. \<not> text_lt (created_at (fst a)) (created_at (fst b))) (all_links d)"
    unfolding eq by (rule sorted_order_by)
  have 3: "\<not> lex_less [year ta, month ta, day ta, hour ta, minute ta, second ta]
                     [year tb, month tb, day tb, hour tb, minute tb, second tb]"
    if h: "i < j \<and> j < length (all_links d)
          \<and> created_at (fst (all_links d ! i)) = sqlite_datetime ta
          \<and> created_at (fst (all_links d ! j)) = sqlite_datetime tb
          \<and> valid_datetime ta \<and> valid_datetime tb"
  proof -
    have "\<forall>i j. i < j \<longrightarrow> j < length (all_links d) \<longrightarrow>
        \<not> text_lt (created_at (fst (all_links d ! i))) (created_at (fst (all_links d ! j)))"
      using 2 by (simp add: sorted_wrt_iff_nth_less)
    with h have "\<not> text_lt (created_at (fst (all_links d ! i)))
        (created_at (fst (all_links d ! j)))"
      by blast
    with h have "\<not> text_lt (sqlite_datetime ta) (sqlite_datetime tb)" by simp
    moreover have "text_lt (sqlite_datetime ta) (sqlite_datetime tb) =
        lex_less [year ta, month ta, day ta, hour ta, minute ta, second ta]
                 [year tb, month tb, day tb, hour tb, minute tb, second tb]"
      using h by (intro text_lt_sqlite_datetime) simp_all
    ultimately show ?thesis by simp
  qed
  have s: "set (all_links d) = set (map ?g (links d))"
    using m by (metis set_mset_mset)
  have 4: "snd r = length (filter (\<lambda>c. click_short_code c = short_code (fst r)) (clicks d))"
    if "r \<in> set (all_links d)"
    using that unfolding s by auto
  have 5: "snd r = 0"
    if "r \<in> set (all_links d) \<and> short_code (fst r) \<notin> set (map click_short_code (clicks d))"
  proof -
    have "filter (\<lambda>c. click_short_code c = short_code (fst r)) (clicks d) = []"
      using that by (intro filter_absent_key) simp
    then show ?thesis using 4 that by simp
  qed
  show ?thesis using 1 2 3 4 5 by blast
qed

theorem all_links_counts_witness:
  "distinct (map link_id (links db0))
   \<and> all_links db0 = [(link_b, 0), (link_c, 0), (link_a, 1)]
   \<and> mset (map fst (all_links db0)) = mset (links db0)
   \<and> (0::nat) < 2 \<and> 2 < length (all_links db0)
   \<and> created_at (fst (all_links db0 ! 0)) =
        sqlite_datetime \<lparr>year = 2023, month = 12, day = 31, hour = 9, minute = 30, second = 0,
                          microsecond = 0\<rparr>
   \<and> created_at (fst (all_links db0 ! 2)) =
        sqlite_datetime \<lparr>year = 2023, month = 12, day = 30, hour = 8, minute = 0, second = 0,
                          microsecond = 0\<rparr>
   \<and> \<not> lex_less [2023, 12, 31, 9, 30, 0] [2023, 12, 30, 8, 0, 0]
   \<and> (link_a, 1) \<in> set (all_links db0)
   \<and> snd (link_a, 1 :: nat) =
        length (filter (\<lambda>c. click_short_code c = short_code link_a) (clicks db0))
   \<and> (link_b, 0) \<in> set (all_links db0)
   \<and> short_code link_b \<notin> set (map click_short_code (clicks db0))
   \<and> snd (link_b, 0 :: nat) = 0"
proof -
  let ?ta = "\<lparr>year = 2023, month = 12, day = 31, hour = 9, minute = 30, second = 0,
              microsecond = 0\<rparr>"
  let ?tb = "\<lparr>year = 2023, month = 12, day = 30, hour = 8, minute = 0, second = 0,
              microsecond = 0\<rparr>"
  have d: "distinct (map link_id (links db0))"
    by (simp add: db0_def link_a_def link_b_def link_c_def)
  have e: "all_links db0 = [(link_b, 0), (link_c, 0), (link_a, 1)]"
    by (simp add: all_links_def left_join_def order_by_created_at_desc_def db0_def click_a_def
        link_a_def link_b_def link_c_def)
  have ca: "created_at (fst (all_links db0 ! 0)) = sqlite_datetime ?ta"
    by (simp add: e) (simp add: link_b_def sqlite_datetime_def pad2_def pad4_def digit_char_def)
  have cb: "created_at (fst (all_links db0 ! 2)) = sqlite_datetime ?tb"
    by (simp add: e) (simp add: link_a_def sqlite_datetime_def pad2_def pad4_def digit_char_def)
  have v: "valid_datetime ?ta \<and> valid_datetime ?tb"
    by (simp add: valid_datetime_def valid_date_def days_in_month_def)
  have ij: "(0::nat) < 2 \<and> 2 < length (all_links db0)" by (simp add: e)
  have ma: "(link_a, 1) \<in> set (all_links db0)" by (simp add: e)
  have mb: "(link_b, 0) \<in> set (all_links db0)
      \<and> short_code (fst (link_b, 0 :: nat)) \<notin> set (map click_short_code (clicks db0))"
    by (simp add: e) (simp add: db0_def link_b_def click_a_def)
  have 1: "mset (map fst (all_links db0)) = mset (links db0)"
    using all_links_counts [OF d] by blast
  have 3: "\<not> lex_less [year ?ta, month ?ta, day ?ta, hour ?ta, minute ?ta, second ?ta]
                       [year ?tb, month ?tb, day ?tb, hour ?tb, minute ?tb, second ?tb]"
    using all_links_counts [OF d, of 0 2 ?ta ?tb] ij ca cb v by blast
  have 4: "snd (link_a, 1 :: nat) =
        length (filter (\<lambda>c. click_short_code c = short_code (fst (link_a, 1 :: nat))) (clicks db0))"
    using all_links_counts [OF d, where r = "(link_a, 1)"] ma by blast
  have 5: "snd (link_b, 0 :: nat) = 0"
    using all_links_counts [OF d, where r = "(link_b, 0)"] mb by blast
  show ?thesis using d e 1 ij ca cb 3 ma 4 mb 5 by simp
qed

section \<open>The sweep scheduler\<close>

lemma run_job_sweep:
  "run_job ''delete_expired_links'' utc s = map_option (\<lambda>d. delete_expired_links d utc) s"
  by (simp add: run_job_def)

lemma intervals_elapsed_stopped:
  "\<not> sched_running q \<Longrightarrow> intervals_elapsed secs utcs q = q"
  unfolding intervals_elapsed_def by (induction utcs) (simp_all add: interval_elapsed_def)

lemma intervals_elapsed_other:
  assumes "sched_jobs q = [(''delete_expired_links'', 3600)]" "secs \<noteq> 3600"
  shows "intervals_elapsed secs utcs q = q"
  unfolding intervals_elapsed_def using assms
  by (induction utcs) (simp_all add: interval_elapsed_def)

lemma intervals_elapsed_hour:
  assumes "sched_running q" "sched_jobs q = [(''delete_expired_links'', 3600)]"
  shows "intervals_elapsed 3600 utcs q = q\<lparr>store := map_option (sweeps utcs) (store q)\<rparr>"
  using assms
proof (induction utcs arbitrary: q)
  case Nil
  have "map_option (sweeps []) (store q) = store q"
    by (cases "store q") (simp_all add: sweeps_def)
  then show ?case by (simp add: intervals_elapsed_def)
next
  case (Cons utc utcs)
  let ?q = "interval_elapsed 3600 utc q"
  have q: "?q = q\<lparr>store := map_option (\<lambda>d. delete_expired_links d utc) (store q)\<rparr>"
    using Cons.prems by (simp add: interval_elapsed_def run_job_sweep)
  have "intervals_elapsed 3600 (utc # utcs) q = intervals_elapsed 3600 utcs ?q"
    by (simp add: intervals_elapsed_def)
  also have "\<dots> = ?q\<lparr>store := map_option (sweeps utcs) (store ?q)\<rparr>"
    using Cons.prems by (intro Cons.IH) (simp_all add: q)
  also have "\<dots> = q\<lparr>store := map_option (sweeps (utc # utcs)) (store q)\<rparr>"
    unfolding q by (cases "store q") (simp_all add: sweeps_def)
  finally show ?case .
qed

lemma run_module_loaded:
  "run_stmts (take 3 (module_body is_main)) p =
     p\<lparr>sched_running := True, sched_jobs := [(''delete_expired_links'', 3600)]\<rparr>"
  by (simp add: run_stmts_def module_body_def)

lemma run_module_serving:
  "run_stmts (take 4 (module_body True)) p =
     p\<lparr>store := init_db (store p), sched_running := True,
       sched_jobs := [(''delete_expired_links'', 3600)]\<rparr>"
  by (simp add: run_stmts_def module_body_def)

lemma run_module_main:
  "run_stmts (module_body True) p =
     p\<lparr>store := init_db (store p), sched_running := False, sched_jobs := []\<rparr>"
  by (simp add: run_stmts_def module_body_def)

text \<open>
  C8 as stated fails: in the main program the scheduler is started by the third
  statement and \<^verbatim>\<open>init_db()\<close> is the fourth. After the first three statements of a
  fresh process the scheduler runs and no table exists.
\<close>

theorem scheduler_started_before_init:
  "\<not> started_after_init (module_body True)
   \<and> module_body True ! 2 = SchedulerStart \<and> module_body True ! 3 = InitDb
   \<and> sched_running (run_stmts (take 3 (module_body True)) fresh_process)
   \<and> store (run_stmts (take 3 (module_body True)) fresh_process) = None"
  by (simp add: module_body_def run_stmts_def fresh_process_def)

text \<open>
  C8, amended. The module's first three statements create the scheduler, register
  \<^verbatim>\<open>delete_expired_links\<close> with an interval of one hour (3600 seconds) and start the
  scheduler; they leave the store as it was, so the scheduler is started before
  \<^verbatim>\<open>init_db()\<close>, which only the main program calls, as its fourth statement. From the
  start on, for as long as the process runs the scheduler (the whole life of a process
  that imports the module, and in the main program while \<^verbatim>\<open>app.run\<close> serves), every
  elapsed hour runs \<^verbatim>\<open>delete_expired_links\<close> on the store, one sweep after the other,
  and no other interval runs anything. The main program ends with
  \<^verbatim>\<open>scheduler.shutdown()\<close>: after it the scheduler is stopped, holds no job, and no
  elapsed interval changes anything.
\<close>

theorem sweep_schedule:
  "take 3 (module_body is_main) = [SchedulerNew, SchedulerAddJob, SchedulerStart]
   \<and> drop 3 (module_body is_main) = (if is_main then [InitDb, AppRun, SchedulerShutdown] else [])
   \<and> sched_jobs (run_stmts (take 2 (module_body is_main)) p) =
        [(''delete_expired_links'', 1 * 60 * 60)]
   \<and> sched_jobs (run_stmts (take 3 (module_body is_main)) p) =
        [(''delete_expired_links'', 1 * 60 * 60)]
   \<and> sched_running (run_stmts (take 3 (module_body is_main)) p)
   \<and> store (run_stmts (take 3 (module_body is_main)) p) = store p
   \<and> intervals_elapsed 3600 utcs (run_stmts (module_body False) p) =
        (run_stmts (module_body False) p)\<lparr>store := map_option (sweeps utcs) (store p)\<rparr>
   \<and> intervals_elapsed 3600 utcs (run_stmts (take 4 (module_body True)) p) =
        (run_stmts (take 4 (module_body True)) p)
          \<lparr>store := map_option (sweeps utcs) (init_db (store p))\<rparr>
   \<and> (secs \<noteq> 3600 \<longrightarrow>
        intervals_elapsed secs utcs (run_stmts (take 3 (module_body is_main)) p) =
          run_stmts (take 3 (module_body is_main)) p)
   \<and> \<not> sched_running (run_stmts (module_body True) p)
   \<and> sched_jobs (run_stmts (module_body True) p) = []
   \<and> intervals_elapsed secs utcs (run_stmts (module_body True) p) =
        run_stmts (module_body True) p"
proof (intro conjI impI)
  show "take 3 (module_body is_main) = [SchedulerNew, SchedulerAddJob, SchedulerStart]"
    by (simp add: module_body_def)
  show "drop 3 (module_body is_main) =
      (if is_main then [InitDb, AppRun, SchedulerShutdown] else [])"
    by (simp add: module_body_def)
  show "sched_jobs (run_stmts (take 2 (module_body is_main)) p) =
        [(''delete_expired_links'', 1 * 60 * 60)]"
    by (simp add: module_body_def run_stmts_def)
  show "sched_jobs (run_stmts (take 3 (module_body is_main)) p) =
        [(''delete_expired_links'', 1 * 60 * 60)]"
    by (simp add: run_module_loaded)
  show "sched_running (run_stmts (take 3 (module_body is_main)) p)"
    by (simp add: run_module_loaded)
  show "store (run_stmts (take 3 (module_body is_main)) p) = store p"
    by (simp add: run_module_loaded)
  have i: "run_stmts (module_body False) p = run_stmts (take 3 (module_body False)) p"
    by (simp add: module_body_def)
  show "intervals_elapsed 3600 utcs (run_stmts (module_body False) p) =
        (run_stmts (module_body False) p)\<lparr>store := map_option (sweeps utcs) (store p)\<rparr>"
    unfolding i run_module_loaded by (simp add: intervals_elapsed_hour)
  show "intervals_elapsed 3600 utcs (run_stmts (take 4 (module_body True)) p) =
        (run_stmts (take 4 (module_body True)) p)
          \<lparr>store := map_option (sweeps utcs) (init_db (store p))\<rparr>"
    unfolding run_module_serving by (simp add: intervals_elapsed_hour)
  show "\<not> sched_running (run_stmts (module_body True) p)"
    by (simp add: run_module_main)
  show "sched_jobs (run_stmts (module_body True) p) = []"
    by (simp add: run_module_main)
  show "intervals_elapsed secs utcs (run_stmts (module_body True) p) =
        run_stmts (module_body True) p"
    by (rule intervals_elapsed_stopped) (simp add: run_module_main)
next
  assume "secs \<noteq> 3600"
  then show "intervals_elapsed secs utcs (run_stmts (take 3 (module_body is_main)) p) =
          run_stmts (take 3 (module_body is_main)) p"
    unfolding run_module_loaded by (intro intervals_elapsed_other) simp_all
qed

theorem sweep_schedule_witness:
  "intervals_elapsed 3600 [noon, noon\<lparr>hour := 13\<rparr>]
       (run_stmts (take 4 (module_body True)) (fresh_process\<lparr>store := Some db0\<rparr>)) =
     \<lparr>store = Some (db0\<lparr>links := [link_a]\<rparr>), sched_running = True,
       sched_jobs = [(''delete_expired_links'', 3600)]\<rparr>
   \<and> (60::nat) \<noteq> 3600
   \<and> intervals_elapsed 60 [noon]
       (run_stmts (take 3 (module_body True)) (fresh_process\<lparr>store := Some db0\<rparr>)) =
     \<lparr>store = Some db0, sched_running = True,
       sched_jobs = [(''delete_expired_links'', 3600)]\<rparr>
   \<and> intervals_elapsed 3600 [noon]
       (run_stmts (module_body True) (fresh_process\<lparr>store := Some db0\<rparr>)) =
     \<lparr>store = Some db0, sched_running = False, sched_jobs = []\<rparr>"
proof -
  let ?p = "fresh_process\<lparr>store := Some db0\<rparr>"
  note t = sweep_schedule [where p = ?p and is_main = True]
  have n: "sqlite_datetime noon = ''2024-01-01 12:00:00''"
      "sqlite_datetime (noon\<lparr>hour := 13\<rparr>) = ''2024-01-01 13:00:00''"
    by (simp_all add: sqlite_datetime_def noon_def pad2_def pad4_def digit_char_def)
  have s: "sweeps [noon, noon\<lparr>hour := 13\<rparr>] db0 = db0\<lparr>links := [link_a]\<rparr>"
    by (simp add: sweeps_def delete_expired_links_def n db0_def)
      (simp add: link_a_def link_b_def link_c_def)
  have 1: "intervals_elapsed 3600 [noon, noon\<lparr>hour := 13\<rparr>]
       (run_stmts (take 4 (module_body True)) ?p) =
     (run_stmts (take 4 (module_body True)) ?p)
       \<lparr>store := map_option (sweeps [noon, noon\<lparr>hour := 13\<rparr>]) (init_db (store ?p))\<rparr>"
    using t [where utcs = "[noon, noon\<lparr>hour := 13\<rparr>]"] by blast
  have 2: "intervals_elapsed 60 [noon] (run_stmts (take 3 (module_body True)) ?p) =
      run_stmts (take 3 (module_body True)) ?p"
  proof -
    have "(60::nat) \<noteq> 3600" by simp
    with t [where utcs = "[noon]" and secs = 60] show ?thesis by blast
  qed
  have 3: "intervals_elapsed 3600 [noon] (run_stmts (module_body True) ?p) =
      run_stmts (module_body True) ?p"
    using t [where utcs = "[noon]" and secs = 3600] by blast
  show ?thesis
    unfolding 1 2 3
    by (simp add: s run_stmts_def module_body_def fresh_process_def init_db_def)
qed

end
